theory Spec2Isabelle
  imports Main "HOL-Library.Char_ord" "HOL-Library.List_Lexorder"
begin

section \<open>A prefixed text formatter for logrus: the data\<close>

text \<open>
  The formatter of \<^verbatim>\<open>formatter.go\<close> turns one logrus entry into one line of text.
  A Go \<^verbatim>\<open>string\<close> is a sequence of bytes, here a \<^typ>\<open>string\<close> (a list of 8-bit
  characters); a \<^verbatim>\<open>[]byte\<close> and the \<^verbatim>\<open>bytes.Buffer\<close> are such lists too, and
  writing to the buffer appends.

  A field value is an \<^verbatim>\<open>interface{}\<close>. The formatter looks at it through a type
  switch (\<^verbatim>\<open>string\<close>, \<^verbatim>\<open>error\<close>, anything else) and through the verbs of package
  \<^verbatim>\<open>fmt\<close>, so a value is a string, an error, the nil interface, or a value of any
  other dynamic type \<open>'a\<close>, which only \<^verbatim>\<open>fmt\<close> can render.

  An error is given by the text that its \<^verbatim>\<open>Error()\<close> method returns and by its
  \<^verbatim>\<open>Format\<close> method, when its type has one: package \<^verbatim>\<open>fmt\<close> hands an operand that
  implements \<^verbatim>\<open>fmt.Formatter\<close> to that method, with the verb and its flags, before it
  looks for \<^verbatim>\<open>Error()\<close>. The verbs that the formatter uses on field values are
  \<^verbatim>\<open>%v\<close> (in \<^verbatim>\<open>Fprint\<close>), \<^verbatim>\<open>%+v\<close>, \<^verbatim>\<open>%s\<close> and \<^verbatim>\<open>%q\<close>. The \<^verbatim>\<open>Error()\<close>
  method is taken to return: a method that panics instead (on a nil pointer of its
  receiver type, say) fails inside the value, not in the formatter.
\<close>

datatype verb = Verb_v | Verb_plus_v | Verb_s | Verb_q

datatype 'a val = Str string | Err string "(verb \<Rightarrow> string) option" | Other 'a | Nil

type_synonym 'a Fields = "string \<rightharpoonup> 'a val"

text \<open>
  Reading \<^verbatim>\<open>data[key]\<close> in the one-result form gives the nil interface for a key
  that is absent.
\<close>

definition index :: "'a Fields \<Rightarrow> string \<Rightarrow> 'a val" where
  "index data key = (case data key of Some v \<Rightarrow> v | None \<Rightarrow> Nil)"

text \<open>
  \<^verbatim>\<open>logrus.Level\<close> is a small unsigned integer with six named values; the switch of
  \<^verbatim>\<open>printColored\<close> has a \<^verbatim>\<open>default\<close> branch for every other value, which
  \<open>UnknownLevel\<close> stands for.
\<close>

datatype Level =
  PanicLevel | FatalLevel | ErrorLevel | WarnLevel | InfoLevel | DebugLevel | UnknownLevel

record ('t, 'a) Entry =
  Data :: "'a Fields"
  Time :: 't
  Level :: Level
  Message :: string

record Colors =
  Debug :: string
  Info :: string
  Warn :: string
  Error :: string
  Prefix :: string
  Default :: string

text \<open>\<^verbatim>\<open>Colors *Colors\<close> is a pointer: \<open>None\<close> is the nil pointer.\<close>

record TextFormatter =
  ForceColors :: bool
  DisableColors :: bool
  DisableTimestamp :: bool
  ShortTimestamp :: bool
  TimestampFormat :: string
  DisableSorting :: bool
  Colors :: "Colors option"

text \<open>
  What the formatter reads from outside its own file: the two package variables set by
  \<^verbatim>\<open>init\<close> (\<^verbatim>\<open>isTerminal\<close>, and \<^verbatim>\<open>baseTimestamp\<close> through the duration
  \<^verbatim>\<open>time.Since(baseTimestamp)\<close> in nanoseconds at the moment of the call),
  \<^verbatim>\<open>runtime.GOOS\<close>, the layout-driven \<^verbatim>\<open>Time.Format\<close>, the renderings of package
  \<^verbatim>\<open>fmt\<close> for a value that is neither string nor error (the verbs \<^verbatim>\<open>%v\<close>, as
  \<^verbatim>\<open>Fprint\<close> uses it, \<^verbatim>\<open>%+v\<close> and \<^verbatim>\<open>%s\<close>), the escape sequences of package
  \<^verbatim>\<open>ansi\<close>, and two tables of runes, the printable ones (\<^verbatim>\<open>strconv.IsPrint\<close>, which
  agrees with \<^verbatim>\<open>unicode.IsPrint\<close>) and the white space of \<^verbatim>\<open>unicode.IsSpace\<close>, asked only
  about the runes that the code below does not decide itself.
\<close>

record ('t, 'a) Runtime =
  isTerminal :: bool
  GOOS :: string
  time_Since_base :: int
  time_Format :: "'t \<Rightarrow> string \<Rightarrow> string"
  fmt_v :: "'a \<Rightarrow> string"
  fmt_plus_v :: "'a \<Rightarrow> string"
  fmt_s :: "'a \<Rightarrow> string"
  ansi_ColorCode :: "string \<Rightarrow> string"
  ansi_Reset :: string
  ansi_White :: string
  ansi_Blue :: string
  ansi_Yellow :: string
  ansi_Red :: string
  ansi_LightBlack :: string
  unicode_IsPrint :: "nat \<Rightarrow> bool"
  unicode_White_Space :: "nat \<Rightarrow> bool"

datatype panic = NilPointerDereference

section \<open>The library functions the formatter calls\<close>

subsection \<open>Package utf8\<close>

definition RuneError :: nat where
  "RuneError = 0xFFFD"

definition byte :: "char \<Rightarrow> nat" where
  "byte c = of_char c"

text \<open>
  \<^verbatim>\<open>utf8.DecodeRuneInString\<close>: the rune the text starts with and its width in bytes;
  \<open>(RuneError, 1)\<close> for a byte that starts no well-formed encoding.
\<close>

fun DecodeRuneInString :: "string \<Rightarrow> nat \<times> nat" where
  "DecodeRuneInString [] = (RuneError, 0)"
| "DecodeRuneInString (c # cs) =
    (let s0 = byte c in
     if s0 < 0x80 then (s0, 1)
     else if s0 < 0xC2 \<or> 0xF4 < s0 then (RuneError, 1)
     else
       let sz = (if s0 < 0xE0 then 2 else if s0 < 0xF0 then 3 else 4) :: nat;
           lo = (if s0 = 0xE0 then 0xA0 else if s0 = 0xF0 then 0x90 else 0x80) :: nat;
           hi = (if s0 = 0xED then 0x9F else if s0 = 0xF4 then 0x8F else 0xBF) :: nat
       in
         if length (c # cs) < sz then (RuneError, 1)
         else
           let s1 = byte (cs ! 0) in
           if s1 < lo \<or> hi < s1 then (RuneError, 1)
           else if sz \<le> 2 then ((s0 mod 32) * 64 + s1 mod 64, 2)
           else
             let s2 = byte (cs ! 1) in
             if s2 < 0x80 \<or> 0xBF < s2 then (RuneError, 1)
             else if sz \<le> 3 then ((s0 mod 16) * 4096 + (s1 mod 64) * 64 + s2 mod 64, 3)
             else
               let s3 = byte (cs ! 2) in
               if s3 < 0x80 \<or> 0xBF < s3 then (RuneError, 1)
               else ((s0 mod 8) * 262144 + (s1 mod 64) * 4096 + (s2 mod 64) * 64
                       + s3 mod 64, 4))"

text \<open>
  \<^verbatim>\<open>utf8.DecodeLastRuneInString\<close>: it walks back at most three bytes from the last one
  to a byte that can start a rune, decodes from there and accepts the rune only when
  it ends where the text ends.
\<close>

definition RuneStart :: "char \<Rightarrow> bool" where
  "RuneStart b = (\<not> (0x80 \<le> byte b \<and> byte b < 0xC0))"

function rune_start_back :: "string \<Rightarrow> int \<Rightarrow> int \<Rightarrow> int" where
  "rune_start_back s lim start =
    (if lim \<le> start
     then (if RuneStart (s ! nat start) then start else rune_start_back s lim (start - 1))
     else start)"
  by pat_completeness auto
termination
  by (relation "measure (\<lambda>(s, lim, start). nat (start - lim + 1))") auto

definition DecodeLastRuneInString :: "string \<Rightarrow> nat \<times> nat" where
  "DecodeLastRuneInString s =
    (let end = int (length s) in
     if end = 0 then (RuneError, 0)
     else
       let start = end - 1;
           r = byte (s ! nat start)
       in
         if r < 0x80 then (r, 1)
         else
           let lim = (if end - 4 < 0 then 0 else end - 4);
               start = rune_start_back s lim (start - 1);
               start = (if start < 0 then 0 else start);
               (r, wid) = DecodeRuneInString (drop (nat start) s)
           in if start + int wid \<noteq> end then (RuneError, 1) else (r, wid))"

text \<open>
  \<^verbatim>\<open>utf8.AppendRune\<close>: the encoding of a rune; a surrogate or a value beyond
  \<^verbatim>\<open>MaxRune\<close> is written as \<^verbatim>\<open>RuneError\<close>.
\<close>

definition ValidRune :: "nat \<Rightarrow> bool" where
  "ValidRune r = (r < 0xD800 \<or> (0xDFFF < r \<and> r \<le> 0x10FFFF))"

definition AppendRune :: "nat \<Rightarrow> string" where
  "AppendRune r =
    (if r \<le> 0x7F then [char_of r]
     else if r \<le> 0x7FF then [char_of (0xC0 + r div 64), char_of (0x80 + r mod 64)]
     else if \<not> ValidRune r then [CHR 0xEF, CHR 0xBF, CHR 0xBD]
     else if r \<le> 0xFFFF
       then [char_of (0xE0 + r div 4096), char_of (0x80 + (r div 64) mod 64),
             char_of (0x80 + r mod 64)]
     else [char_of (0xF0 + r div 262144), char_of (0x80 + (r div 4096) mod 64),
           char_of (0x80 + (r div 64) mod 64), char_of (0x80 + r mod 64)])"

subsection \<open>Package unicode\<close>

text \<open>
  \<^verbatim>\<open>unicode.IsSpace\<close> and \<^verbatim>\<open>unicode.IsPrint\<close> decide the small runes themselves
  and look the others up in their tables.
\<close>

definition IsSpace :: "('t, 'a) Runtime \<Rightarrow> nat \<Rightarrow> bool" where
  "IsSpace rt r =
    (if r \<le> 0xFF then r \<in> {0x09, 0x0A, 0x0B, 0x0C, 0x0D, 0x20, 0x85, 0xA0}
     else unicode_White_Space rt r)"

definition IsPrint :: "('t, 'a) Runtime \<Rightarrow> nat \<Rightarrow> bool" where
  "IsPrint rt r =
    (if r < 0x80 then 0x20 \<le> r \<and> r < 0x7F else unicode_IsPrint rt r)"

subsection \<open>Package strings\<close>

text \<open>
  \<^verbatim>\<open>strings.TrimSpace\<close> is \<^verbatim>\<open>TrimFunc(s, unicode.IsSpace)\<close>: the runes are taken
  off the front while they are white space, then off the back.
\<close>

function TrimLeftFunc :: "(nat \<Rightarrow> bool) \<Rightarrow> string \<Rightarrow> string" where
  "TrimLeftFunc f [] = []"
| "TrimLeftFunc f (c # cs) =
    (let (r, wid) = DecodeRuneInString (c # cs) in
     if f r then TrimLeftFunc f (drop wid (c # cs)) else c # cs)"
  by pat_completeness auto
termination
proof (relation "measure (\<lambda>(f, s). length s)")
  show "wf (measure (\<lambda>(f, s). length s))"
    by simp
next
  fix f :: "nat \<Rightarrow> bool" and c :: char and cs :: string and x :: "nat \<times> nat" and r wid :: nat
  assume d: "x = DecodeRuneInString (c # cs)" and x: "(r, wid) = x"
  have "0 < snd (DecodeRuneInString (c # cs))"
    by (simp add: Let_def)
  moreover from d x have "wid = snd (DecodeRuneInString (c # cs))"
    by (simp add: prod_eq_iff)
  ultimately have "0 < wid"
    by simp
  then show "((f, drop wid (c # cs)), (f, c # cs)) \<in> measure (\<lambda>(f, s). length s)"
    by simp
qed

text \<open>
  \<^verbatim>\<open>lastIndexFunc(s, f, false)\<close> steps back over the runes that satisfy \<open>f\<close>; its
  loop variable \<^verbatim>\<open>i\<close> is the length of the text still to look at, \<^verbatim>\<open>s[0:i]\<close>.
  \<open>None\<close> is the result \<^verbatim>\<open>-1\<close>.
\<close>

function lastIndexFunc :: "(nat \<Rightarrow> bool) \<Rightarrow> string \<Rightarrow> nat option" where
  "lastIndexFunc f s =
    (if 0 < length s
     then (let (r, wid) = DecodeLastRuneInString s;
               i = length s - wid
           in if f r then lastIndexFunc f (take i s) else Some i)
     else None)"
  by pat_completeness auto
termination
proof (relation "measure (\<lambda>(f, s). length s)")
  show "wf (measure (\<lambda>(f, s). length s))"
    by simp
next
  fix f :: "nat \<Rightarrow> bool" and s :: string and x :: "nat \<times> nat" and r wid i :: nat
  assume s: "0 < length s" and d: "x = DecodeLastRuneInString s" and x: "(r, wid) = x"
    and i: "i = length s - wid"
  have walk: "rune_start_back t lim start \<le> start" for t lim start
    by (induction t lim start rule: rune_start_back.induct)
      (subst rune_start_back.simps, auto simp del: rune_start_back.simps)
  have accept: "0 < snd (case DecodeRuneInString t of
      (r, w) \<Rightarrow> if st + int w \<noteq> e then (RuneError, 1::nat) else (r, w))"
    if "st < e" for st e t
    using that by (cases "DecodeRuneInString t") auto
  have "0 < snd (DecodeLastRuneInString s)"
  proof (cases "byte (s ! nat (int (length s) - 1)) < 0x80")
    case True
    with s show ?thesis
      by (simp add: DecodeLastRuneInString_def Let_def)
  next
    case False
    define lim where "lim = (if int (length s) - 4 < 0 then 0 else int (length s) - 4)"
    define st0 where "st0 = rune_start_back s lim (int (length s) - 1 - 1)"
    define st where "st = (if st0 < 0 then 0 else st0)"
    have eq: "DecodeLastRuneInString s =
      (case DecodeRuneInString (drop (nat st) s) of
        (r, w) \<Rightarrow> if st + int w \<noteq> int (length s) then (RuneError, 1) else (r, w))"
      unfolding DecodeLastRuneInString_def Let_def st_def st0_def lim_def
      using False s by (simp del: rune_start_back.simps DecodeRuneInString.simps)
    have "st < int (length s)"
      using walk [of s lim "int (length s) - 1 - 1"] s by (auto simp: st_def st0_def)
    then show ?thesis
      unfolding eq by (rule accept)
  qed
  moreover from d x have "wid = snd (DecodeLastRuneInString s)"
    by (simp add: prod_eq_iff)
  ultimately have "0 < wid"
    by simp
  with s i show "((f, take i s), (f, s)) \<in> measure (\<lambda>(f, s). length s)"
    by simp
qed

definition TrimRightFunc :: "(nat \<Rightarrow> bool) \<Rightarrow> string \<Rightarrow> string" where
  "TrimRightFunc f s =
    (case lastIndexFunc f s of
       None \<Rightarrow> []
     | Some i \<Rightarrow>
         if 0x80 \<le> byte (s ! i)
         then (let (r, wid) = DecodeRuneInString (drop i s) in take (i + wid) s)
         else take (i + 1) s)"

definition TrimSpace :: "('t, 'a) Runtime \<Rightarrow> string \<Rightarrow> string" where
  "TrimSpace rt s = TrimRightFunc (IsSpace rt) (TrimLeftFunc (IsSpace rt) s)"

text \<open>
  \<^verbatim>\<open>strings.ToUpper\<close> on text that is ASCII throughout: every byte \<^verbatim>\<open>a\<close> to
  \<^verbatim>\<open>z\<close> becomes its capital. The formatter calls it on level names only, which are
  ASCII.
\<close>

definition upper :: "char \<Rightarrow> char" where
  "upper c = (if CHR ''a'' \<le> c \<and> c \<le> CHR ''z'' then char_of (byte c - 32) else c)"

definition ToUpper :: "string \<Rightarrow> string" where
  "ToUpper s = map upper s"

subsection \<open>Package strconv\<close>

text \<open>
  \<^verbatim>\<open>strconv.Quote\<close>, which the verb \<^verbatim>\<open>%q\<close> applies to a string and to the text of
  an error: a Go string literal in double quotes. A quote and a backslash get a
  backslash, a printable rune stands for itself, the usual control characters have their
  letter, and every other rune or byte is written in hexadecimal.
\<close>

definition lowerhex :: string where
  "lowerhex = ''0123456789abcdef''"

definition hex :: "nat \<Rightarrow> char" where
  "hex n = lowerhex ! (n mod 16)"

definition appendEscapedRune :: "('t, 'a) Runtime \<Rightarrow> nat \<Rightarrow> string" where
  "appendEscapedRune rt r =
    (if r = 0x22 \<or> r = 0x5C then [CHR 0x5C, char_of r]
     else if IsPrint rt r then AppendRune r
     else if r = 0x07 then [CHR 0x5C, CHR ''a'']
     else if r = 0x08 then [CHR 0x5C, CHR ''b'']
     else if r = 0x0C then [CHR 0x5C, CHR ''f'']
     else if r = 0x0A then [CHR 0x5C, CHR ''n'']
     else if r = 0x0D then [CHR 0x5C, CHR ''r'']
     else if r = 0x09 then [CHR 0x5C, CHR ''t'']
     else if r = 0x0B then [CHR 0x5C, CHR ''v'']
     else if r < 0x20 \<or> r = 0x7F then [CHR 0x5C, CHR ''x'', hex (r div 16), hex r]
     else
       let r = (if \<not> ValidRune r then RuneError else r) in
       if r < 0x10000
       then [CHR 0x5C, CHR ''u'', hex (r div 4096), hex (r div 256), hex (r div 16), hex r]
       else [CHR 0x5C, CHR ''U'', hex (r div 268435456), hex (r div 16777216),
             hex (r div 1048576), hex (r div 65536), hex (r div 4096), hex (r div 256),
             hex (r div 16), hex r])"

function quoted :: "('t, 'a) Runtime \<Rightarrow> string \<Rightarrow> string" where
  "quoted rt [] = []"
| "quoted rt (c # cs) =
    (let (r, width) =
       (if 0x80 \<le> byte c then DecodeRuneInString (c # cs) else (byte c, 1))
     in
       (if width = 1 \<and> r = RuneError
        then [CHR 0x5C, CHR ''x'', hex (byte c div 16), hex (byte c)]
        else appendEscapedRune rt r)
       @ quoted rt (drop width (c # cs)))"
  by pat_completeness auto
termination
proof (relation "measure (\<lambda>(rt, s). length s)", goal_cases)
  case 1
  show ?case
    by simp
next
  case (2 rt c cs x r width)
  have "0 < snd (if 0x80 \<le> byte c then DecodeRuneInString (c # cs) else (byte c, 1))"
    by (simp add: Let_def)
  moreover from 2 have "width = snd x"
    by (simp add: prod_eq_iff)
  ultimately have "0 < width"
    using 2 by simp
  then show ?case
    by simp
qed

definition Quote :: "('t, 'a) Runtime \<Rightarrow> string \<Rightarrow> string" where
  "Quote rt s = [CHR 0x22] @ quoted rt s @ [CHR 0x22]"

subsection \<open>Package fmt\<close>

text \<open>
  The verbs the formatter uses. An error operand goes to its own \<^verbatim>\<open>Format\<close> method
  when it has one; otherwise \<^verbatim>\<open>%s\<close>, \<^verbatim>\<open>%v\<close> and \<^verbatim>\<open>%+v\<close> write the text of
  \<^verbatim>\<open>Error()\<close> and \<^verbatim>\<open>%q\<close> writes that text quoted. \<^verbatim>\<open>%s\<close>, \<^verbatim>\<open>%v\<close> and
  \<^verbatim>\<open>%+v\<close> write a string as it is; \<^verbatim>\<open>%v\<close> and \<^verbatim>\<open>%+v\<close> write the nil interface
  as \<^verbatim>\<open><nil>\<close>, \<^verbatim>\<open>%s\<close> as \<^verbatim>\<open>%!s(<nil>)\<close>.
\<close>

definition fmt_error ::
  "('t, 'a) Runtime \<Rightarrow> verb \<Rightarrow> string \<Rightarrow> (verb \<Rightarrow> string) option \<Rightarrow> string" where
  "fmt_error rt verb errmsg own =
    (case own of
       Some Format \<Rightarrow> Format verb
     | None \<Rightarrow> (case verb of Verb_q \<Rightarrow> Quote rt errmsg | _ \<Rightarrow> errmsg))"

fun Sprint :: "('t, 'a) Runtime \<Rightarrow> 'a val \<Rightarrow> string" where
  "Sprint rt (Str s) = s"
| "Sprint rt (Err m own) = fmt_error rt Verb_v m own"
| "Sprint rt (Other x) = fmt_v rt x"
| "Sprint rt Nil = ''<nil>''"

fun verb_plus_v :: "('t, 'a) Runtime \<Rightarrow> 'a val \<Rightarrow> string" where
  "verb_plus_v rt (Str s) = s"
| "verb_plus_v rt (Err m own) = fmt_error rt Verb_plus_v m own"
| "verb_plus_v rt (Other x) = fmt_plus_v rt x"
| "verb_plus_v rt Nil = ''<nil>''"

fun verb_s :: "('t, 'a) Runtime \<Rightarrow> 'a val \<Rightarrow> string" where
  "verb_s rt (Str s) = s"
| "verb_s rt (Err m own) = fmt_error rt Verb_s m own"
| "verb_s rt (Other x) = fmt_s rt x"
| "verb_s rt Nil = ''%!s(<nil>)''"

text \<open>
  \<^verbatim>\<open>%+5s\<close> pads a string with spaces on the left to five characters (the flag
  \<^verbatim>\<open>+\<close> changes nothing for \<^verbatim>\<open>%s\<close>); the formatter uses it for level names, where
  a character is a byte. \<^verbatim>\<open>%04d\<close> writes an integer in decimal, with zeros between
  the sign and the digits up to four characters.
\<close>

definition verb_5s :: "string \<Rightarrow> string" where
  "verb_5s s = replicate (5 - length s) CHR '' '' @ s"

definition digit :: "nat \<Rightarrow> char" where
  "digit n = ''0123456789'' ! (n mod 10)"

fun decimal :: "nat \<Rightarrow> string" where
  "decimal n = (if n < 10 then [digit n] else decimal (n div 10) @ [digit n])"

definition verb_04d :: "int \<Rightarrow> string" where
  "verb_04d n =
    (if n < 0 then CHR ''-'' # replicate (3 - length (decimal (nat (- n)))) CHR ''0''
                     @ decimal (nat (- n))
     else replicate (4 - length (decimal (nat n))) CHR ''0'' @ decimal (nat n))"

subsection \<open>Packages logrus and time\<close>

text \<open>\<^verbatim>\<open>Level.String()\<close> of logrus, and the layout \<^verbatim>\<open>time.Stamp\<close>.\<close>

fun Level_String :: "Level \<Rightarrow> string" where
  "Level_String DebugLevel = ''debug''"
| "Level_String InfoLevel = ''info''"
| "Level_String WarnLevel = ''warning''"
| "Level_String ErrorLevel = ''error''"
| "Level_String FatalLevel = ''fatal''"
| "Level_String PanicLevel = ''panic''"
| "Level_String UnknownLevel = ''unknown''"

definition time_Stamp :: string where
  "time_Stamp = ''Jan _2 15:04:05''"


text \<open>
  The regular expression of \<^verbatim>\<open>extractPrefix\<close>, \<^verbatim>\<open>^\[(.*?)\]\<close>, matches at the start
  of the text only: a \<^verbatim>\<open>[\<close>, then as few characters as possible, none of them a
  newline (the dot of package \<^verbatim>\<open>regexp\<close> does not match one), then a \<^verbatim>\<open>]\<close>.
  \<open>lazy_group\<close> is the part after the opening bracket and gives the captured group.
\<close>

fun lazy_group :: "string \<Rightarrow> string option" where
  "lazy_group [] = None"
| "lazy_group (c # cs) =
    (if c = CHR '']'' then Some []
     else if c = CHR 0x0A then None
     else map_option ((#) c) (lazy_group cs))"

fun regex_match :: "string \<Rightarrow> string option" where
  "regex_match [] = None"
| "regex_match (c # cs) =
    (if c = CHR ''[''
     then map_option (\<lambda>g. [CHR ''[''] @ g @ [CHR '']'']) (lazy_group cs)
     else None)"

definition regex_MatchString :: "string \<Rightarrow> bool" where
  "regex_MatchString s = (regex_match s \<noteq> None)"

definition regex_FindString :: "string \<Rightarrow> string" where
  "regex_FindString s = (case regex_match s of Some m \<Rightarrow> m | None \<Rightarrow> [])"

section \<open>The formatter\<close>

text \<open>\<^verbatim>\<open>const reset = ansi.Reset\<close>\<close>

definition reset :: "('t, 'a) Runtime \<Rightarrow> string" where
  "reset rt = ansi_Reset rt"

text \<open>
  \<^verbatim>\<open>miniTS\<close>: the whole seconds since \<^verbatim>\<open>baseTimestamp\<close>. A \<^verbatim>\<open>time.Duration\<close>
  counts nanoseconds, and Go's integer division rounds towards zero.
\<close>

definition time_Second :: int where
  "time_Second = 1000000000"

definition miniTS :: "('t, 'a) Runtime \<Rightarrow> int" where
  "miniTS rt =
    (let d = time_Since_base rt in
     if d < 0 then - ((- d) div time_Second) else d div time_Second)"

text \<open>
  \<^verbatim>\<open>needsQuoting\<close> ranges over the runes of the text, as \<^verbatim>\<open>for _, ch := range text\<close>
  decodes them, and compares each with the rune literals.
\<close>

definition rune :: "char \<Rightarrow> nat" where
  "rune c = of_char c"

function needsQuoting :: "string \<Rightarrow> bool" where
  "needsQuoting [] = True"
| "needsQuoting (c # cs) =
    (let (ch, width) = DecodeRuneInString (c # cs) in
     if \<not> ((rune CHR ''a'' \<le> ch \<and> ch \<le> rune CHR ''z'') \<or>
            (rune CHR ''A'' \<le> ch \<and> ch \<le> rune CHR ''Z'') \<or>
            (rune CHR ''0'' \<le> ch \<and> ch \<le> rune CHR ''9'') \<or>
            ch = rune CHR ''-'' \<or> ch = rune CHR ''.'')
     then False
     else needsQuoting (drop width (c # cs)))"
  by pat_completeness auto
termination
proof (relation "measure length", goal_cases)
  case 1
  show ?case
    by simp
next
  case (2 c cs x ch width)
  have "0 < snd (DecodeRuneInString (c # cs))"
    by (simp add: Let_def)
  moreover from 2 have "width = snd (DecodeRuneInString (c # cs))"
    by (simp add: prod_eq_iff)
  ultimately show ?case
    by simp
qed

definition extractPrefix :: "('t, 'a) Runtime \<Rightarrow> string \<Rightarrow> string \<times> string" where
  "extractPrefix rt msg =
    (let prefix = [] in
     if regex_MatchString msg
     then (let match = regex_FindString msg in
           (drop 1 (take (length match - 1) match),
            TrimSpace rt (drop (length match) msg)))
     else (prefix, msg))"

text \<open>
  \<^verbatim>\<open>appendKeyValue\<close>. The type switch tests the text of an error, \<^verbatim>\<open>value.Error()\<close>,
  and then hands the error itself, not that text, to \<^verbatim>\<open>%q\<close>. The call of
  \<^verbatim>\<open>Error()\<close> is the one place where the formatter runs a method of a field value
  directly; it is taken to return its text.
\<close>

definition appendKeyValue :: "('t, 'a) Runtime \<Rightarrow> string \<Rightarrow> string \<Rightarrow> 'a val \<Rightarrow> string" where
  "appendKeyValue rt b key value =
    (let b = b @ key;
         b = b @ [CHR ''='']
     in
       (case value of
          Str value \<Rightarrow> if needsQuoting value then b @ value else b @ Quote rt value
        | Err errmsg own \<Rightarrow>
            if needsQuoting errmsg then b @ errmsg else b @ fmt_error rt Verb_q errmsg own
        | _ \<Rightarrow> b @ Sprint rt value)
       @ [CHR '' ''])"

definition prefixFieldClashes :: "'a Fields \<Rightarrow> 'a Fields" where
  "prefixFieldClashes data =
    (let data = (if data ''time'' \<noteq> None
                 then data(''fields.time'' \<mapsto> index data ''time'') else data);
         data = (if data ''msg'' \<noteq> None
                 then data(''fields.msg'' \<mapsto> index data ''msg'') else data);
         data = (if data ''level'' \<noteq> None
                 then data(''fields.level'' \<mapsto> index data ''level'') else data)
     in data)"

text \<open>
  The two loops over \<^verbatim>\<open>keys\<close>: the one of \<^verbatim>\<open>printColored\<close>, with the format
  \<^verbatim>\<open>" %s%s%s=%+v"\<close>, and the one of the plain branch of \<^verbatim>\<open>Format\<close>.
\<close>

fun printColored_fields ::
  "('t, 'a) Runtime \<Rightarrow> string \<Rightarrow> 'a Fields \<Rightarrow> string \<Rightarrow> string list \<Rightarrow> string" where
  "printColored_fields rt b data levelColor [] = b"
| "printColored_fields rt b data levelColor (k # keys) =
    (let v = index data k in
     printColored_fields rt
       (b @ '' '' @ levelColor @ k @ reset rt @ ''='' @ verb_plus_v rt v)
       data levelColor keys)"

fun Format_fields ::
  "('t, 'a) Runtime \<Rightarrow> string \<Rightarrow> 'a Fields \<Rightarrow> string list \<Rightarrow> string" where
  "Format_fields rt b data [] = b"
| "Format_fields rt b data (key # keys) =
    Format_fields rt (appendKeyValue rt b key (index data key)) data keys"

text \<open>
  \<^verbatim>\<open>printColored\<close> reads a field of \<^verbatim>\<open>f.Colors\<close> on every path, first in the
  switch on the level and before anything is written: with the nil pointer it panics.
  The two formats are
  \<^verbatim>\<open>"%s[%04d]%s %s%+5s%s%s %s"\<close> and \<^verbatim>\<open>"%s[%s]%s %s%+5s%s%s %s"\<close>, and the prefix
  is \<^verbatim>\<open>"%s %s:%s"\<close>.
\<close>

definition levelColor_of :: "('t, 'a) Runtime \<Rightarrow> Colors \<Rightarrow> Level \<Rightarrow> string" where
  "levelColor_of rt colors level =
    (case level of
       DebugLevel \<Rightarrow>
         (let c = ansi_White rt in
          if Debug colors \<noteq> [] then ansi_ColorCode rt (Debug colors) else c)
     | InfoLevel \<Rightarrow>
         (let c = ansi_Blue rt in
          if Info colors \<noteq> [] then ansi_ColorCode rt (Info colors) else c)
     | WarnLevel \<Rightarrow>
         (let c = ansi_Yellow rt in
          if Warn colors \<noteq> [] then ansi_ColorCode rt (Warn colors) else c)
     | ErrorLevel \<Rightarrow>
         (let c = ansi_Red rt in
          if Error colors \<noteq> [] then ansi_ColorCode rt (Error colors) else c)
     | FatalLevel \<Rightarrow>
         (let c = ansi_Red rt in
          if Error colors \<noteq> [] then ansi_ColorCode rt (Error colors) else c)
     | PanicLevel \<Rightarrow>
         (let c = ansi_Red rt in
          if Error colors \<noteq> [] then ansi_ColorCode rt (Error colors) else c)
     | UnknownLevel \<Rightarrow>
         (let c = ansi_White rt in
          if Default colors \<noteq> [] then ansi_ColorCode rt (Default colors) else c))"

definition levelText_of :: "Level \<Rightarrow> string" where
  "levelText_of level =
    (if level \<noteq> WarnLevel then ToUpper (Level_String level) else ''WARN'')"

definition printColored ::
  "('t, 'a) Runtime \<Rightarrow> TextFormatter \<Rightarrow> string \<Rightarrow> ('t, 'a) Entry \<Rightarrow> string list \<Rightarrow> string
     \<Rightarrow> panic + string" where
  "printColored rt f b entry keys timestampFormat =
    (case Colors f of
       None \<Rightarrow> Inl NilPointerDereference
     | Some colors \<Rightarrow>
        (let levelColor = levelColor_of rt colors (Level entry);
             levelText = levelText_of (Level entry);
             prefix = [];
             message = Message entry;
             prefixColor = ansi_LightBlack rt;
             prefixColor = (if Prefix colors \<noteq> [] then ansi_ColorCode rt (Prefix colors)
                            else prefixColor);
             (prefix, message) =
               (case Data entry ''prefix'' of
                  Some prefixValue \<Rightarrow>
                    (prefixColor @ '' '' @ verb_s rt prefixValue @ '':'' @ reset rt, message)
                | None \<Rightarrow>
                    (let (prefixValue, trimmedMsg) = extractPrefix rt (Message entry) in
                     if prefixValue \<noteq> []
                     then (prefixColor @ '' '' @ prefixValue @ '':'' @ reset rt, trimmedMsg)
                     else (prefix, message)));
             b = (if ShortTimestamp f
                  then b @ prefixColor @ ''['' @ verb_04d (miniTS rt) @ '']'' @ reset rt @ '' ''
                         @ levelColor @ verb_5s levelText @ reset rt @ prefix @ '' '' @ message
                  else b @ prefixColor @ ''['' @ time_Format rt (Time entry) timestampFormat
                         @ '']'' @ reset rt @ '' ''
                         @ levelColor @ verb_5s levelText @ reset rt @ prefix @ '' '' @ message)
         in Inr (printColored_fields rt b (Data entry) levelColor keys)))"

text \<open>
  \<^verbatim>\<open>Format\<close>. The argument \<open>order\<close> is the order in which
  \<^verbatim>\<open>for k := range entry.Data\<close> yields the keys of the map, which the Go runtime
  chooses anew at every loop. The call changes the map of the entry, so the entry is
  returned with the result; the result is the bytes and the \<^verbatim>\<open>error\<close>, which is
  always nil (\<open>None\<close>), or the panic.
\<close>

definition Format ::
  "('t, 'a) Runtime \<Rightarrow> TextFormatter \<Rightarrow> string list \<Rightarrow> ('t, 'a) Entry
     \<Rightarrow> ('t, 'a) Entry \<times> (panic + string \<times> string option)" where
  "Format rt f order entry =
    (let keys = filter (\<lambda>k. k \<noteq> ''prefix'') order;
         keys = (if \<not> DisableSorting f then sort keys else keys);
         b = [];
         entry = entry\<lparr>Data := prefixFieldClashes (Data entry)\<rparr>;
         isColorTerminal = (isTerminal rt \<and> GOOS rt \<noteq> ''windows'');
         isColored = ((ForceColors f \<or> isColorTerminal) \<and> \<not> DisableColors f);
         timestampFormat = TimestampFormat f;
         timestampFormat = (if timestampFormat = [] then time_Stamp else timestampFormat);
         b = (if isColored
              then printColored rt f b entry keys timestampFormat
              else
                (let b = (if \<not> DisableTimestamp f
                          then appendKeyValue rt b ''time''
                                 (Str (time_Format rt (Time entry) timestampFormat))
                          else b);
                     b = appendKeyValue rt b ''level'' (Str (Level_String (Level entry)));
                     b = (if Message entry \<noteq> []
                          then appendKeyValue rt b ''msg'' (Str (Message entry)) else b)
                 in Inr (Format_fields rt b (Data entry) keys)))
     in (entry, case b of Inl p \<Rightarrow> Inl p | Inr b \<Rightarrow> Inr (b @ [CHR 0x0A], None)))"


section \<open>The specification's notions\<close>

text \<open>
  The characters the specification lets stand bare: an ASCII letter, an ASCII digit, a
  hyphen or a period.
\<close>

definition bare_char :: "char \<Rightarrow> bool" where
  "bare_char c =
    (c \<in> set ''abcdefghijklmnopqrstuvwxyzABCDEFGHIJKLMNOPQRSTUVWXYZ0123456789-.'')"

definition all_bare :: "string \<Rightarrow> bool" where
  "all_bare v = list_all bare_char v"

text \<open>
  The escaped form of an ASCII character in a quoted string literal: a backslash before
  a double quote and a backslash, the character itself when it is printable, the letter
  escapes of the control characters that have one, and two hexadecimal digits after
  \<^verbatim>\<open>\x\<close> for the others.
\<close>

definition ascii_escape :: "char \<Rightarrow> string" where
  "ascii_escape c =
    (if c = CHR 0x22 then [CHR 0x5C, CHR 0x22]
     else if c = CHR 0x5C then [CHR 0x5C, CHR 0x5C]
     else if CHR '' '' \<le> c \<and> c \<le> CHR ''~'' then [c]
     else if c = CHR 0x07 then [CHR 0x5C, CHR ''a'']
     else if c = CHR 0x08 then [CHR 0x5C, CHR ''b'']
     else if c = CHR 0x0C then [CHR 0x5C, CHR ''f'']
     else if c = CHR 0x0A then [CHR 0x5C, CHR ''n'']
     else if c = CHR 0x0D then [CHR 0x5C, CHR ''r'']
     else if c = CHR 0x09 then [CHR 0x5C, CHR ''t'']
     else if c = CHR 0x0B then [CHR 0x5C, CHR ''v'']
     else [CHR 0x5C, CHR ''x'', hex (byte c div 16), hex (byte c)])"

definition ascii :: "string \<Rightarrow> bool" where
  "ascii v = list_all (\<lambda>c. byte c < 0x80) v"

text \<open>A text with no line break in it.\<close>

definition one_line :: "string \<Rightarrow> bool" where
  "one_line s = (CHR 0x0A \<notin> set s)"

text \<open>
  The colorization decision: force-colors, or a terminal on an operating system other
  than Windows, and colors not disabled.
\<close>

definition colored_mode :: "('t, 'a) Runtime \<Rightarrow> TextFormatter \<Rightarrow> bool" where
  "colored_mode rt f =
    ((ForceColors f \<or> (isTerminal rt \<and> GOOS rt \<noteq> ''windows'')) \<and> \<not> DisableColors f)"

text \<open>
  Plain mode: what follows \<^verbatim>\<open>key=\<close>, a pair with its trailing space, and the line
  of pairs in their fixed order, closed by the newline. \<open>layout\<close> is the configured
  timestamp format or, when that is empty, \<^verbatim>\<open>time.Stamp\<close>.
\<close>

definition value_text :: "('t, 'a) Runtime \<Rightarrow> 'a val \<Rightarrow> string" where
  "value_text rt v =
    (case v of
       Str s \<Rightarrow> if all_bare s then s else Quote rt s
     | Err m own \<Rightarrow> if all_bare m then m else fmt_error rt Verb_q m own
     | Other x \<Rightarrow> fmt_v rt x
     | Nil \<Rightarrow> ''<nil>'')"

definition key_value :: "('t, 'a) Runtime \<Rightarrow> string \<Rightarrow> 'a val \<Rightarrow> string" where
  "key_value rt k v = k @ ''='' @ value_text rt v @ '' ''"

definition layout :: "TextFormatter \<Rightarrow> string" where
  "layout f = (if TimestampFormat f = [] then time_Stamp else TimestampFormat f)"

definition plain_line ::
  "('t, 'a) Runtime \<Rightarrow> TextFormatter \<Rightarrow> ('t, 'a) Entry \<Rightarrow> 'a Fields \<Rightarrow> string list \<Rightarrow> string" where
  "plain_line rt f entry data keys =
    (if DisableTimestamp f then []
     else key_value rt ''time'' (Str (time_Format rt (Time entry) (layout f))))
    @ key_value rt ''level'' (Str (Level_String (Level entry)))
    @ (if Message entry = [] then [] else key_value rt ''msg'' (Str (Message entry)))
    @ concat (map (\<lambda>k. key_value rt k (index data k)) keys)
    @ [CHR 0x0A]"

text \<open>
  The texts that the plain line writes as they are, besides the three pairs that
  \<^verbatim>\<open>Format\<close> itself adds: the keys and what is written for their values.
\<close>

definition plain_texts :: "('t, 'a) Runtime \<Rightarrow> 'a Fields \<Rightarrow> string list \<Rightarrow> string list" where
  "plain_texts rt data keys = keys @ map (\<lambda>k. value_text rt (index data k)) keys"

text \<open>
  The keys that are rendered as fields: every key of the map but \<^verbatim>\<open>prefix\<close>, sorted
  unless sorting is disabled.
\<close>

definition field_keys :: "TextFormatter \<Rightarrow> string list \<Rightarrow> string list" where
  "field_keys f order =
    (if DisableSorting f then filter (\<lambda>k. k \<noteq> ''prefix'') order
     else sort (filter (\<lambda>k. k \<noteq> ''prefix'') order))"

text \<open>
  Colored mode: the label of each level, the bracketed token a message may start with
  (non-empty, closed by the first \<^verbatim>\<open>]\<close>, with no line break in it) together with
  the rest of the message, the prefix annotation, the pair of annotation and displayed
  message, and a field as it is written after the message.
\<close>

fun level_label :: "Level \<Rightarrow> string" where
  "level_label DebugLevel = ''DEBUG''"
| "level_label InfoLevel = '' INFO''"
| "level_label WarnLevel = '' WARN''"
| "level_label ErrorLevel = ''ERROR''"
| "level_label FatalLevel = ''FATAL''"
| "level_label PanicLevel = ''PANIC''"
| "level_label UnknownLevel = ''UNKNOWN''"

definition bracket_token :: "string \<Rightarrow> (string \<times> string) option" where
  "bracket_token msg =
    (case msg of
       [] \<Rightarrow> None
     | c # cs \<Rightarrow>
         if c = CHR ''['' \<and> CHR '']'' \<in> set cs
         then (let token = takeWhile (\<lambda>x. x \<noteq> CHR '']'') cs;
                   rest = tl (dropWhile (\<lambda>x. x \<noteq> CHR '']'') cs)
               in if token \<noteq> [] \<and> CHR 0x0A \<notin> set token then Some (token, rest) else None)
         else None)"

definition prefix_color :: "('t, 'a) Runtime \<Rightarrow> Colors \<Rightarrow> string" where
  "prefix_color rt colors =
    (if Prefix colors = [] then ansi_LightBlack rt else ansi_ColorCode rt (Prefix colors))"

definition annotation :: "('t, 'a) Runtime \<Rightarrow> Colors \<Rightarrow> string \<Rightarrow> string" where
  "annotation rt colors text = prefix_color rt colors @ '' '' @ text @ '':'' @ reset rt"

definition displayed :: "('t, 'a) Runtime \<Rightarrow> Colors \<Rightarrow> ('t, 'a) Entry \<Rightarrow> string \<times> string" where
  "displayed rt colors entry =
    (case Data entry ''prefix'' of
       Some v \<Rightarrow> (annotation rt colors (verb_s rt v), Message entry)
     | None \<Rightarrow>
        (case bracket_token (Message entry) of
           Some (token, rest) \<Rightarrow> (annotation rt colors token, TrimSpace rt rest)
         | None \<Rightarrow> ([], Message entry)))"

definition stamp :: "('t, 'a) Runtime \<Rightarrow> TextFormatter \<Rightarrow> ('t, 'a) Entry \<Rightarrow> string \<Rightarrow> string" where
  "stamp rt f entry timestampFormat =
    (if ShortTimestamp f then verb_04d (miniTS rt)
     else time_Format rt (Time entry) timestampFormat)"

definition colored_field :: "('t, 'a) Runtime \<Rightarrow> string \<Rightarrow> 'a Fields \<Rightarrow> string \<Rightarrow> string" where
  "colored_field rt levelColor data k =
    '' '' @ levelColor @ k @ reset rt @ ''='' @ verb_plus_v rt (index data k)"

text \<open>
  The texts that the colored line is made of, besides the level label and its fixed
  characters: the two colors, the timestamp, the reset sequence, the annotation, the
  displayed message, the keys and the values as \<^verbatim>\<open>%+v\<close> writes them.
\<close>

definition colored_texts ::
  "('t, 'a) Runtime \<Rightarrow> TextFormatter \<Rightarrow> Colors \<Rightarrow> ('t, 'a) Entry \<Rightarrow> string list
     \<Rightarrow> string list" where
  "colored_texts rt f colors entry keys =
    [prefix_color rt colors, stamp rt f entry (layout f), reset rt,
     levelColor_of rt colors (Level entry), fst (displayed rt colors entry),
     snd (displayed rt colors entry)]
    @ keys @ map (\<lambda>k. verb_plus_v rt (index (Data entry) k)) keys"

section \<open>Sample inputs\<close>

text \<open>
  A runtime to evaluate the formatter in: a Linux process whose output is no terminal,
  one and a half seconds after its start, with field values of type \<^verbatim>\<open>int\<close> beside
  strings and errors. The timestamp of a sample entry is Go's reference time, which
  under the layout \<^verbatim>\<open>time.Stamp\<close> reads \<^verbatim>\<open>Jan  2 15:04:05\<close>.
\<close>

definition show_int :: "int \<Rightarrow> string" where
  "show_int n = (if n < 0 then CHR ''-'' # decimal (nat (- n)) else decimal (nat n))"

definition sample_Runtime :: "(unit, int) Runtime" where
  "sample_Runtime =
    \<lparr>isTerminal = False, GOOS = ''linux'', time_Since_base = 1500000000,
     time_Format = (\<lambda>t l. ''Jan  2 15:04:05''),
     fmt_v = show_int, fmt_plus_v = show_int,
     fmt_s = (\<lambda>n. ''%!s(int='' @ show_int n @ '')''),
     ansi_ColorCode = (\<lambda>style. [CHR 0x1B] @ ''[38;5;'' @ style @ ''m''),
     ansi_Reset = [CHR 0x1B] @ ''[0m'',
     ansi_White = [CHR 0x1B] @ ''[0;37m'',
     ansi_Blue = [CHR 0x1B] @ ''[0;34m'',
     ansi_Yellow = [CHR 0x1B] @ ''[0;33m'',
     ansi_Red = [CHR 0x1B] @ ''[0;31m'',
     ansi_LightBlack = [CHR 0x1B] @ ''[0;90m'',
     unicode_IsPrint = (\<lambda>r. 0xA1 \<le> r \<and> r \<noteq> 0xAD),
     unicode_White_Space = (\<lambda>r. r = 0x1680 \<or> (0x2000 \<le> r \<and> r \<le> 0x200A) \<or> r = 0x3000)\<rparr>"

definition plain_formatter :: TextFormatter where
  "plain_formatter =
    \<lparr>ForceColors = False, DisableColors = False, DisableTimestamp = False,
     ShortTimestamp = False, TimestampFormat = [], DisableSorting = False, Colors = None\<rparr>"

definition default_Colors :: Colors where
  "default_Colors = \<lparr>Debug = [], Info = [], Warn = [], Error = [], Prefix = [], Default = []\<rparr>"

definition colored_formatter :: TextFormatter where
  "colored_formatter = plain_formatter\<lparr>ForceColors := True, Colors := Some default_Colors\<rparr>"

text \<open>
  An error whose type has a \<^verbatim>\<open>Format\<close> method that writes the verb in angle brackets
  before the text, whatever the verb.
\<close>

definition sample_Format :: "verb \<Rightarrow> string" where
  "sample_Format verb =
    (case verb of
       Verb_v \<Rightarrow> ''<v:a b>''
     | Verb_plus_v \<Rightarrow> ''<v:a b>''
     | Verb_s \<Rightarrow> ''<s:a b>''
     | Verb_q \<Rightarrow> ''<q:a b>'')"

text \<open>An error whose \<^verbatim>\<open>Format\<close> method writes two lines, whatever the verb.\<close>

definition two_line_Format :: "verb \<Rightarrow> string" where
  "two_line_Format verb = [CHR ''c'', CHR 0x0A, CHR ''d'']"

definition sample_Entry :: "(unit, int) Entry" where
  "sample_Entry =
    \<lparr>Data = Map.empty, Time = (), Level = InfoLevel, Message = ''[worker] started job''\<rparr>"

section \<open>Evaluation and basic facts\<close>

text \<open>
  The equations of the loops whose recursion is not on the structure of the text are
  unfolded by hand where they are needed.
\<close>

declare quoted.simps(2) [simp del]
declare TrimLeftFunc.simps(2) [simp del]
declare lastIndexFunc.simps [simp del]
declare rune_start_back.simps [simp del]
declare DecodeRuneInString.simps(2) [simp del]
declare decimal.simps [simp del]
declare needsQuoting.simps(2) [simp del]

subsection \<open>The bare characters\<close>

lemma lower_enum:
  fixes n :: nat
  shows "(n \<in> set (map of_char ''abcdefghijklmnopqrstuvwxyz'')) = (97 \<le> n \<and> n \<le> 122)"
  by (simp, arith)
lemma upper_enum:
  fixes n :: nat
  shows "(n \<in> set (map of_char ''ABCDEFGHIJKLMNOPQRSTUVWXYZ'')) = (65 \<le> n \<and> n \<le> 90)"
  by (simp, arith)
lemma digit_enum:
  fixes n :: nat
  shows "(n \<in> set (map of_char ''0123456789'')) = (48 \<le> n \<and> n \<le> 57)"
  by (simp, arith)
lemma mem_of_char: "(c \<in> set cs) = ((of_char c :: nat) \<in> set (map of_char cs))"
  by (auto simp: image_iff)
lemma bare_char_ranges:
  "bare_char ch =
    ((CHR ''a'' \<le> ch \<and> ch \<le> CHR ''z'') \<or> (CHR ''A'' \<le> ch \<and> ch \<le> CHR ''Z'') \<or>
     (CHR ''0'' \<le> ch \<and> ch \<le> CHR ''9'') \<or> ch = CHR ''-'' \<or> ch = CHR ''.'')"
proof -
  have split: "set ''abcdefghijklmnopqrstuvwxyzABCDEFGHIJKLMNOPQRSTUVWXYZ0123456789-.'' =
    set ''abcdefghijklmnopqrstuvwxyz'' \<union> set ''ABCDEFGHIJKLMNOPQRSTUVWXYZ'' \<union> set ''0123456789'' \<union> {CHR ''-'', CHR ''.''}"
    by (simp add: insert_commute)
  have a: "(ch \<in> set ''abcdefghijklmnopqrstuvwxyz'') = (CHR ''a'' \<le> ch \<and> ch \<le> CHR ''z'')"
    unfolding mem_of_char [of ch] lower_enum less_eq_char_def by simp
  have b: "(ch \<in> set ''ABCDEFGHIJKLMNOPQRSTUVWXYZ'') = (CHR ''A'' \<le> ch \<and> ch \<le> CHR ''Z'')"
    unfolding mem_of_char [of ch] upper_enum less_eq_char_def by simp
  have c: "(ch \<in> set ''0123456789'') = (CHR ''0'' \<le> ch \<and> ch \<le> CHR ''9'')"
    unfolding mem_of_char [of ch] digit_enum less_eq_char_def by simp
  show ?thesis
    unfolding bare_char_def split Un_iff a b c by auto
qed

subsection \<open>Quoting writes no line break\<close>

lemma hex_lowerhex: "hex n \<in> set lowerhex"
  unfolding hex_def by (rule nth_mem) (simp add: lowerhex_def)

lemma hex_not_newline: "hex n \<noteq> CHR 0x0A" "CHR 0x0A \<noteq> hex n"
  using hex_lowerhex [of n] by (auto simp: lowerhex_def)

lemma char_of_newline:
  "(char_of (n::nat) = CHR 0x0A) = (n mod 256 = 10)"
  "(CHR 0x0A = char_of (n::nat)) = (n mod 256 = 10)"
proof -
  have "(char_of n = CHR 0x0A) = (of_char (char_of n :: char) = (of_char (CHR 0x0A) :: nat))"
    by (simp only: of_char_eq_iff)
  then show "(char_of (n::nat) = CHR 0x0A) = (n mod 256 = 10)"
    by simp
  then show "(CHR 0x0A = char_of (n::nat)) = (n mod 256 = 10)"
    by (simp add: eq_commute [of "CHR 0x0A"])
qed

lemma high_mod: "128 \<le> n \<Longrightarrow> n < 256 \<Longrightarrow> (n::nat) mod 256 \<noteq> 10"
  by simp

lemma AppendRune_no_newline:
  assumes "r \<noteq> 10"
  shows "CHR 0x0A \<notin> set (AppendRune r)"
proof -
  have m: "(128 + k mod 64) mod 256 \<noteq> 10" for k :: nat
    by (rule high_mod) simp_all
  consider "r \<le> 0x7F" | "0x7F < r" "r \<le> 0x7FF" | "0x7FF < r" "\<not> ValidRune r"
    | "0x7FF < r" "ValidRune r" "r \<le> 0xFFFF" | "0xFFFF < r" "ValidRune r"
    by (cases "ValidRune r"; cases "r \<le> 0x7F"; cases "r \<le> 0x7FF"; cases "r \<le> 0xFFFF"; simp)
  then show ?thesis
  proof cases
    case 1
    with assms show ?thesis
      by (simp add: AppendRune_def char_of_newline)
  next
    case 2
    then have "r div 64 < 32"
      by (simp add: less_mult_imp_div_less)
    then have "(192 + r div 64) mod 256 \<noteq> 10"
      by (intro high_mod) simp_all
    with 2 m show ?thesis
      by (simp add: AppendRune_def char_of_newline)
  next
    case 3
    then show ?thesis
      by (simp add: AppendRune_def)
  next
    case 4
    then have "r div 4096 < 16"
      by (simp add: less_mult_imp_div_less)
    then have "(224 + r div 4096) mod 256 \<noteq> 10"
      by (intro high_mod) simp_all
    with 4 m show ?thesis
      by (simp add: AppendRune_def char_of_newline)
  next
    case 5
    then have "r div 262144 < 5"
      by (simp add: less_mult_imp_div_less ValidRune_def)
    then have "(240 + r div 262144) mod 256 \<noteq> 10"
      by (intro high_mod) simp_all
    with 5 m show ?thesis
      by (simp add: AppendRune_def char_of_newline)
  qed
qed

lemma appendEscapedRune_no_newline: "CHR 0x0A \<notin> set (appendEscapedRune rt r)"
proof -
  consider "r = 0x22 \<or> r = 0x5C" | "\<not> (r = 0x22 \<or> r = 0x5C)" "IsPrint rt r"
    | "\<not> (r = 0x22 \<or> r = 0x5C)" "\<not> IsPrint rt r"
    by blast
  then show ?thesis
  proof cases
    case 1
    then show ?thesis
      by (auto simp: appendEscapedRune_def char_of_newline)
  next
    case 2
    then have "r \<noteq> 10"
      by (auto simp: IsPrint_def)
    with 2 show ?thesis
      by (simp add: appendEscapedRune_def AppendRune_no_newline)
  next
    case 3
    then show ?thesis
      by (simp add: appendEscapedRune_def Let_def hex_not_newline)
  qed
qed

lemma quoted_no_newline: "CHR 0x0A \<notin> set (quoted rt s)"
proof (induction rt s rule: quoted.induct)
  case (1 rt)
  show ?case by simp
next
  case (2 rt c cs)
  obtain r w where d: "(if 0x80 \<le> byte c then DecodeRuneInString (c # cs) else (byte c, 1)) = (r, w)"
    by (cases "if 0x80 \<le> byte c then DecodeRuneInString (c # cs) else (byte c, 1)") auto
  from 2 [OF d [symmetric] refl] have ih: "CHR 0x0A \<notin> set (quoted rt (drop w (c # cs)))" .
  have "quoted rt (c # cs) = (if w = 1 \<and> r = RuneError
        then [CHR 0x5C, CHR ''x'', hex (byte c div 16), hex (byte c)]
        else appendEscapedRune rt r) @ quoted rt (drop w (c # cs))"
    by (subst quoted.simps(2)) (simp only: d Let_def prod.case)
  with ih show ?case
    by (simp add: appendEscapedRune_no_newline hex_not_newline)
qed

lemma Quote_no_newline: "CHR 0x0A \<notin> set (Quote rt s)"
  by (simp add: Quote_def quoted_no_newline)

subsection \<open>A quoted string is longer than the string\<close>

lemma byte_bound: "byte c < 256"
  by (simp add: byte_def)

lemma mod_window:
  fixes s m q :: nat
  assumes "q * m \<le> s" and "s < q * m + m"
  shows "s mod m = s - q * m"
proof -
  from assms(1) have "s = (s - q * m) + q * m"
    by simp
  then have "s mod m = ((s - q * m) + q * m) mod m"
    by simp
  also have "\<dots> = (s - q * m) mod m"
    by simp
  also from assms have "\<dots> = s - q * m"
    by (intro mod_less) linarith
  finally show ?thesis .
qed

lemma cont_mod: "0x80 \<le> s \<Longrightarrow> s \<le> 0xBF \<Longrightarrow> s mod 64 = s - (128::nat)"
  using mod_window [of 2 64 s] by simp

lemma two_bytes:
  fixes s0 s1 :: nat
  assumes "0xC2 \<le> s0" "s0 < 0xE0"
  shows "0x80 \<le> (s0 mod 32) * 64 + s1 mod 64 \<and> (s0 mod 32) * 64 + s1 mod 64 \<le> 0x7FF"
proof -
  from assms have "s0 mod 32 = s0 - 192"
    using mod_window [of 6 32 s0] by simp
  moreover have "s1 mod 64 < 64"
    by simp
  ultimately show ?thesis
    using assms by linarith
qed

lemma three_bytes:
  fixes s0 s1 s2 :: nat
  assumes "0xE0 \<le> s0" "s0 < 0xF0" "(if s0 = 0xE0 then 0xA0 else 0x80) \<le> s1" "s1 \<le> 0xBF"
  shows "0x800 \<le> (s0 mod 16) * 4096 + (s1 mod 64) * 64 + s2 mod 64 \<and>
    (s0 mod 16) * 4096 + (s1 mod 64) * 64 + s2 mod 64 \<le> 0xFFFF"
proof -
  from assms have "s0 mod 16 = s0 - 224"
    using mod_window [of 14 16 s0] by simp
  moreover from assms have "s1 mod 64 = s1 - 128"
    by (intro cont_mod) (simp_all split: if_splits)
  moreover have "s2 mod 64 < 64"
    by simp
  ultimately show ?thesis
    using assms by (cases "s0 = 0xE0") (simp_all, linarith+)
qed

lemma four_bytes:
  fixes s0 s1 s2 s3 :: nat
  assumes "0xF0 \<le> s0" "s0 \<le> 0xF4" "(if s0 = 0xF0 then 0x90 else 0x80) \<le> s1"
    "s1 \<le> (if s0 = 0xF4 then 0x8F else 0xBF)"
  shows "0x10000 \<le> (s0 mod 8) * 262144 + (s1 mod 64) * 4096 + (s2 mod 64) * 64 + s3 mod 64 \<and>
    (s0 mod 8) * 262144 + (s1 mod 64) * 4096 + (s2 mod 64) * 64 + s3 mod 64 \<le> 0x10FFFF"
proof -
  from assms have "s0 mod 8 = s0 - 240"
    using mod_window [of 30 8 s0] by simp
  moreover from assms have "s1 mod 64 = s1 - 128"
    by (intro cont_mod) (simp_all split: if_splits)
  moreover have "s2 mod 64 < 64" "s3 mod 64 < 64"
    by simp_all
  ultimately show ?thesis
    using assms by (cases "s0 = 0xF0"; cases "s0 = 0xF4") (simp_all, linarith+)
qed

lemma DecodeRuneInString_range:
  assumes "0x80 \<le> byte c" and "DecodeRuneInString (c # cs) = (r, w)"
  shows "(w = 1 \<and> r = RuneError) \<or> (w = 2 \<and> 0x80 \<le> r \<and> r \<le> 0x7FF) \<or>
    (w = 3 \<and> 0x800 \<le> r \<and> r \<le> 0xFFFF) \<or> (w = 4 \<and> 0x10000 \<le> r \<and> r \<le> 0x10FFFF)"
proof -
  define s0 where "s0 = byte c"
  define s1 where "s1 = byte (cs ! 0)"
  define s2 where "s2 = byte (cs ! 1)"
  define s3 where "s3 = byte (cs ! 2)"
  define lo :: nat where "lo = (if s0 = 0xE0 then 0xA0 else if s0 = 0xF0 then 0x90 else 0x80)"
  define hi :: nat where "hi = (if s0 = 0xED then 0x9F else if s0 = 0xF4 then 0x8F else 0xBF)"
  note d = assms(2) [unfolded DecodeRuneInString.simps(2) Let_def,
      folded s0_def s1_def s2_def s3_def, folded lo_def hi_def]
  have s0: "0x80 \<le> s0"
    using assms(1) by (simp add: s0_def)
  have hi: "hi \<le> 0xBF"
    by (simp add: hi_def)
  show ?thesis
  proof (cases "s0 < 0xC2 \<or> 0xF4 < s0")
    case True
    with d s0 show ?thesis
      by auto
  next
    case range: False
    show ?thesis
    proof (cases "length (c # cs) < (if s0 < 0xE0 then 2 else if s0 < 0xF0 then 3 else 4)
        \<or> s1 < lo \<or> hi < s1")
      case True
      with d s0 range show ?thesis
        by (auto split: if_splits)
    next
      case s1: False
      show ?thesis
      proof (cases "s0 < 0xE0")
        case True
        with d s0 range s1 have "w = 2" "r = (s0 mod 32) * 64 + s1 mod 64"
          by (auto split: if_splits)
        with two_bytes [of s0 s1] True range show ?thesis
          by simp
      next
        case not2: False
        show ?thesis
        proof (cases "s2 < 0x80 \<or> 0xBF < s2")
          case True
          with d s0 range s1 not2 show ?thesis
            by (auto split: if_splits)
        next
          case s2: False
          show ?thesis
          proof (cases "s0 < 0xF0")
            case True
            with d s0 range s1 not2 s2
            have "w = 3" "r = (s0 mod 16) * 4096 + (s1 mod 64) * 64 + s2 mod 64"
              by (auto split: if_splits)
            moreover from s1 hi True not2 have "(if s0 = 0xE0 then 0xA0 else 0x80) \<le> s1" "s1 \<le> 0xBF"
              by (auto simp: lo_def split: if_splits)
            ultimately show ?thesis
              using three_bytes [of s0 s1 s2] True not2 by simp
          next
            case not3: False
            show ?thesis
            proof (cases "s3 < 0x80 \<or> 0xBF < s3")
              case True
              with d s0 range s1 not2 s2 not3 show ?thesis
                by (auto split: if_splits)
            next
              case False
              with d s0 range s1 not2 s2 not3
              have "w = 4"
                "r = (s0 mod 8) * 262144 + (s1 mod 64) * 4096 + (s2 mod 64) * 64 + s3 mod 64"
                by (auto split: if_splits)
              moreover from s1 not3 range
              have "(if s0 = 0xF0 then 0x90 else 0x80) \<le> s1"
                "s1 \<le> (if s0 = 0xF4 then 0x8F else 0xBF)"
                by (auto simp: lo_def hi_def split: if_splits)
              ultimately show ?thesis
                using four_bytes [of s0 s1 s2 s3] not3 range by simp
            qed
          qed
        qed
      qed
    qed
  qed
qed

lemma AppendRune_length:
  "r \<le> 0x7F \<Longrightarrow> length (AppendRune r) = 1"
  "0x80 \<le> r \<Longrightarrow> r \<le> 0x7FF \<Longrightarrow> length (AppendRune r) = 2"
  "0x800 \<le> r \<Longrightarrow> r \<le> 0xFFFF \<Longrightarrow> length (AppendRune r) = 3"
  "0x10000 \<le> r \<Longrightarrow> r \<le> 0x10FFFF \<Longrightarrow> length (AppendRune r) = 4"
  by (simp_all add: AppendRune_def ValidRune_def)

lemma appendEscapedRune_nonempty: "1 \<le> length (appendEscapedRune rt r)"
  by (simp add: appendEscapedRune_def AppendRune_def Let_def)

lemma appendEscapedRune_length:
  assumes "0x80 \<le> r"
    and "(w = 2 \<and> r \<le> 0x7FF) \<or> (w = 3 \<and> 0x800 \<le> r \<and> r \<le> 0xFFFF) \<or>
      (w = 4 \<and> 0x10000 \<le> r \<and> r \<le> 0x10FFFF)"
  shows "w \<le> length (appendEscapedRune rt r)"
proof (cases "IsPrint rt r")
  case True
  with assms(1) have "appendEscapedRune rt r = AppendRune r"
    by (simp add: appendEscapedRune_def)
  moreover from assms have "w \<le> length (AppendRune r)"
    by (elim disjE conjE) (simp_all add: AppendRune_length)
  ultimately show ?thesis
    by simp
next
  case False
  with assms(1) have "6 \<le> length (appendEscapedRune rt r)"
    by (simp add: appendEscapedRune_def Let_def)
  with assms(2) show ?thesis
    by (elim disjE conjE) simp_all
qed

lemma quoted_length: "length s \<le> length (quoted rt s)"
proof (induction rt s rule: quoted.induct)
  case (1 rt)
  show ?case
    by simp
next
  case (2 rt c cs)
  obtain r w where dec:
    "(if 0x80 \<le> byte c then DecodeRuneInString (c # cs) else (byte c, 1)) = (r, w)"
    by (cases "if 0x80 \<le> byte c then DecodeRuneInString (c # cs) else (byte c, 1)") auto
  from 2 [OF dec [symmetric] refl]
  have ih: "length (drop w (c # cs)) \<le> length (quoted rt (drop w (c # cs)))" .
  have q: "quoted rt (c # cs) =
      (if w = 1 \<and> r = RuneError
       then [CHR 0x5C, CHR ''x'', hex (byte c div 16), hex (byte c)]
       else appendEscapedRune rt r) @ quoted rt (drop w (c # cs))"
    by (subst quoted.simps(2)) (simp only: dec Let_def prod.case)
  have "w \<le> length (if w = 1 \<and> r = RuneError
       then [CHR 0x5C, CHR ''x'', hex (byte c div 16), hex (byte c)]
       else appendEscapedRune rt r)"
  proof (cases "0x80 \<le> byte c")
    case True
    with dec have "DecodeRuneInString (c # cs) = (r, w)"
      by simp
    from DecodeRuneInString_range [OF True this]
    consider "w = 1" "r = RuneError"
      | "0x80 \<le> r" "(w = 2 \<and> r \<le> 0x7FF) \<or> (w = 3 \<and> 0x800 \<le> r \<and> r \<le> 0xFFFF) \<or>
          (w = 4 \<and> 0x10000 \<le> r \<and> r \<le> 0x10FFFF)"
      by (elim disjE conjE) simp_all
    then show ?thesis
    proof cases
      case 1
      then show ?thesis
        by simp
    next
      case 2
      from appendEscapedRune_length [OF this] 2(2) show ?thesis
        by (elim disjE conjE) simp_all
    qed
  next
    case False
    with dec have "w = 1" "r < 0x80"
      by auto
    with appendEscapedRune_nonempty [of rt r] show ?thesis
      by (simp add: RuneError_def)
  qed
  with ih show ?case
    unfolding q by simp
qed

lemma Quote_differs: "Quote rt v \<noteq> v"
proof
  assume "Quote rt v = v"
  then have "length (Quote rt v) = length v"
    by simp
  with quoted_length [of v rt] show False
    by (simp add: Quote_def)
qed

subsection \<open>The quoting test reads bytes\<close>

text \<open>
  The runes that \<^verbatim>\<open>needsQuoting\<close> accepts are ASCII, a byte below \<^verbatim>\<open>0x80\<close> is always
  a rune of its own, and a byte from \<^verbatim>\<open>0x80\<close> on starts a rune from \<^verbatim>\<open>0x80\<close> on
  (\<^verbatim>\<open>U+FFFD\<close> when it is ill-formed): the test holds exactly when every byte of the
  text is a bare character.
\<close>

lemma needsQuoting_all_bare: "needsQuoting v = all_bare v"
proof (induction v rule: needsQuoting.induct)
  case 1
  show ?case
    by (simp add: all_bare_def)
next
  case (2 c cs)
  show ?case
  proof (cases "byte c < 0x80")
    case True
    then have d: "DecodeRuneInString (c # cs) = (byte c, 1)"
      by (simp add: DecodeRuneInString.simps(2))
    have b: "bare_char c =
      ((rune CHR ''a'' \<le> byte c \<and> byte c \<le> rune CHR ''z'') \<or>
       (rune CHR ''A'' \<le> byte c \<and> byte c \<le> rune CHR ''Z'') \<or>
       (rune CHR ''0'' \<le> byte c \<and> byte c \<le> rune CHR ''9'') \<or>
       byte c = rune CHR ''-'' \<or> byte c = rune CHR ''.'')"
      unfolding bare_char_ranges less_eq_char_def rune_def byte_def
      using of_char_eq_iff [of c "CHR ''-''", where ?'a = nat]
        of_char_eq_iff [of c "CHR ''.''", where ?'a = nat]
      by simp
    show ?thesis
    proof (cases "bare_char c")
      case yes: True
      with b 2 [OF d [symmetric] refl] have "needsQuoting (drop 1 (c # cs)) = all_bare (drop 1 (c # cs))"
        by blast
      with yes b show ?thesis
        by (subst needsQuoting.simps(2)) (auto simp: d all_bare_def)
    next
      case no: False
      with b show ?thesis
        by (subst needsQuoting.simps(2)) (simp add: d all_bare_def)
    qed
  next
    case False
    then have h: "0x80 \<le> byte c"
      by simp
    obtain r w where d: "DecodeRuneInString (c # cs) = (r, w)"
      by (cases "DecodeRuneInString (c # cs)")
    from DecodeRuneInString_range [OF h d] have "0x80 \<le> r"
      by (auto simp: RuneError_def)
    then have r: "\<not> ((rune CHR ''a'' \<le> r \<and> r \<le> rune CHR ''z'') \<or>
            (rune CHR ''A'' \<le> r \<and> r \<le> rune CHR ''Z'') \<or>
            (rune CHR ''0'' \<le> r \<and> r \<le> rune CHR ''9'') \<or>
            r = rune CHR ''-'' \<or> r = rune CHR ''.'')"
      by (simp add: rune_def)
    from h have "\<not> bare_char c"
      by (auto simp: bare_char_ranges less_eq_char_def byte_def)
    with r show ?thesis
      by (subst needsQuoting.simps(2)) (simp add: d all_bare_def)
  qed
qed

subsection \<open>Quoting printable ASCII\<close>

lemma quoted_printable:
  assumes "CHR '' '' \<le> c" "c \<le> CHR ''~''" "c \<noteq> CHR 0x22" "c \<noteq> CHR 0x5C"
  shows "quoted rt (c # cs) = c # quoted rt cs"
proof -
  have b: "0x20 \<le> byte c" "byte c < 0x7F"
    using assms(1,2) by (simp_all add: byte_def less_eq_char_def)
  have n: "byte c \<noteq> 0x22" "byte c \<noteq> 0x5C"
    using assms(3,4) of_char_eq_iff [of c "CHR 0x22", where ?'a = nat]
      of_char_eq_iff [of c "CHR 0x5C", where ?'a = nat]
    by (simp_all add: byte_def)
  have c: "char_of (byte c) = c"
    by (simp add: byte_def)
  have d: "(if 0x80 \<le> byte c then DecodeRuneInString (c # cs) else (byte c, 1)) = (byte c, 1)"
    using b by simp
  have "quoted rt (c # cs) =
      (if (1::nat) = 1 \<and> byte c = RuneError
       then [CHR 0x5C, CHR ''x'', hex (byte c div 16), hex (byte c)]
       else appendEscapedRune rt (byte c)) @ quoted rt (drop 1 (c # cs))"
    by (subst quoted.simps(2)) (simp only: d Let_def prod.case)
  also have "\<dots> = appendEscapedRune rt (byte c) @ quoted rt cs"
    using b by (simp add: RuneError_def)
  also have "appendEscapedRune rt (byte c) = [c]"
    using b n c by (simp add: appendEscapedRune_def IsPrint_def AppendRune_def)
  finally show ?thesis
    by (simp)
qed

lemma Quote_hello_world:
  "Quote rt ''hello world'' = [CHR 0x22] @ ''hello world'' @ [CHR 0x22]"
  by (simp add: Quote_def quoted_printable)

subsection \<open>The escapes of a quoted string\<close>

lemma byte_eq: "(c = d) = (byte c = byte d)"
  by (simp add: byte_def)

lemma appendEscapedRune_ascii:
  assumes "byte c < 0x80"
  shows "appendEscapedRune rt (byte c) = ascii_escape c"
proof -
  have c: "char_of (byte c) = c"
    by (simp add: byte_def)
  have k: "byte (CHR 0x22) = 0x22" "byte (CHR 0x5C) = 0x5C" "byte (CHR 0x07) = 0x07"
    "byte (CHR 0x08) = 0x08" "byte (CHR 0x0C) = 0x0C" "byte (CHR 0x0A) = 0x0A"
    "byte (CHR 0x0D) = 0x0D" "byte (CHR 0x09) = 0x09" "byte (CHR 0x0B) = 0x0B"
    "byte (CHR '' '') = 0x20" "byte (CHR ''~'') = 0x7E"
    by (simp_all add: byte_def)
  have le: "(d \<le> e) = (byte d \<le> byte e)" for d e
    by (simp add: less_eq_char_def byte_def)
  have q: "char_of (0x22::nat) = CHR 0x22" "char_of (0x5C::nat) = CHR 0x5C"
    by code_simp+
  show ?thesis
    unfolding ascii_escape_def byte_eq [of c] le k
    using assms c q by (auto simp: appendEscapedRune_def IsPrint_def AppendRune_def)
qed

lemma quoted_ascii:
  assumes "byte c < 0x80"
  shows "quoted rt (c # cs) = ascii_escape c @ quoted rt cs"
proof -
  have d: "(if 0x80 \<le> byte c then DecodeRuneInString (c # cs) else (byte c, 1)) = (byte c, 1)"
    using assms by simp
  have "quoted rt (c # cs) =
      (if (1::nat) = 1 \<and> byte c = RuneError
       then [CHR 0x5C, CHR ''x'', hex (byte c div 16), hex (byte c)]
       else appendEscapedRune rt (byte c)) @ quoted rt (drop 1 (c # cs))"
    by (subst quoted.simps(2)) (simp only: d Let_def prod.case)
  also have "\<dots> = appendEscapedRune rt (byte c) @ quoted rt cs"
    using assms by (simp add: RuneError_def)
  finally show ?thesis
    by (simp only: appendEscapedRune_ascii [OF assms])
qed

lemma Quote_ascii:
  "ascii v \<Longrightarrow> Quote rt v = [CHR 0x22] @ concat (map ascii_escape v) @ [CHR 0x22]"
proof -
  have "ascii v \<Longrightarrow> quoted rt v = concat (map ascii_escape v)"
    by (induction v) (simp_all add: ascii_def quoted_ascii)
  then show "ascii v \<Longrightarrow> Quote rt v = [CHR 0x22] @ concat (map ascii_escape v) @ [CHR 0x22]"
    by (simp add: Quote_def)
qed

lemma one_line_Quote: "one_line (Quote rt v)"
  unfolding one_line_def by (rule Quote_no_newline)

lemma quoted_invalid: "quoted rt [CHR 0xFF] = [CHR 0x5C, CHR ''x'', CHR ''f'', CHR ''f'']"
  by (subst quoted.simps(2))
    (simp add: byte_def DecodeRuneInString.simps(2) RuneError_def hex_def lowerhex_def)

lemma quoted_e_acute:
  "unicode_IsPrint rt 0xE9 \<Longrightarrow> quoted rt [CHR 0xC3, CHR 0xA9] = [CHR 0xC3, CHR 0xA9]"
proof -
  have c: "char_of (195::nat) = CHR 0xC3" "char_of (169::nat) = CHR 0xA9"
    by code_simp+
  show "unicode_IsPrint rt 0xE9 \<Longrightarrow> quoted rt [CHR 0xC3, CHR 0xA9] = [CHR 0xC3, CHR 0xA9]"
    by (subst quoted.simps(2))
      (simp add: byte_def DecodeRuneInString.simps(2) RuneError_def appendEscapedRune_def
        IsPrint_def AppendRune_def c)
qed

lemma quoted_soft_hyphen:
  "\<not> unicode_IsPrint rt 0xAD \<Longrightarrow>
    quoted rt [CHR 0xC2, CHR 0xAD] = [CHR 0x5C, CHR ''u'', CHR ''0'', CHR ''0'', CHR ''a'', CHR ''d'']"
  by (subst quoted.simps(2))
    (simp add: byte_def DecodeRuneInString.simps(2) RuneError_def appendEscapedRune_def
      IsPrint_def ValidRune_def hex_def lowerhex_def)

subsection \<open>The two branches of Format\<close>

lemma appendKeyValue_key_value: "appendKeyValue rt b key v = b @ key_value rt key v"
  by (cases v) (simp_all add: appendKeyValue_def key_value_def value_text_def needsQuoting_all_bare)

lemma Format_fields_concat:
  "Format_fields rt b data keys = b @ concat (map (\<lambda>k. key_value rt k (index data k)) keys)"
  by (induction keys arbitrary: b) (simp_all add: appendKeyValue_key_value)

lemma printColored_fields_concat:
  "printColored_fields rt b data levelColor keys =
     b @ concat (map (colored_field rt levelColor data) keys)"
  by (induction keys arbitrary: b) (simp_all add: colored_field_def Let_def)

lemma Format_plain:
  assumes "\<not> colored_mode rt f"
  shows "Format rt f order entry =
    (entry\<lparr>Data := prefixFieldClashes (Data entry)\<rparr>,
     Inr (plain_line rt f entry (prefixFieldClashes (Data entry))
            (field_keys f order), None))"
proof -
  from assms have c: "((ForceColors f \<or> (isTerminal rt \<and> GOOS rt \<noteq> ''windows''))
      \<and> \<not> DisableColors f) = False"
    by (simp add: colored_mode_def)
  show ?thesis
    unfolding Format_def Let_def c if_False
    by (simp add: plain_line_def layout_def field_keys_def appendKeyValue_key_value
        Format_fields_concat)
qed

lemma Format_colored:
  assumes "colored_mode rt f"
  shows "Format rt f order entry =
    (entry\<lparr>Data := prefixFieldClashes (Data entry)\<rparr>,
     case printColored rt f [] (entry\<lparr>Data := prefixFieldClashes (Data entry)\<rparr>)
            (field_keys f order) (layout f) of
       Inl p \<Rightarrow> Inl p
     | Inr b \<Rightarrow> Inr (b @ [CHR 0x0A], None))"
proof -
  from assms have c: "((ForceColors f \<or> (isTerminal rt \<and> GOOS rt \<noteq> ''windows''))
      \<and> \<not> DisableColors f) = True"
    by (simp add: colored_mode_def)
  show ?thesis
    unfolding Format_def Let_def c if_True
    by (simp add: layout_def field_keys_def)
qed

lemma field_keys_set: "set (field_keys f order) = set order - {''prefix''}"
  by (auto simp: field_keys_def)

lemma field_keys_distinct: "distinct order \<Longrightarrow> distinct (field_keys f order)"
  by (simp add: field_keys_def)


section \<open>Properties of the field map\<close>

lemma prefixFieldClashes_apply:
  "prefixFieldClashes data k =
     (if k = ''fields.time'' \<and> data ''time'' \<noteq> None then data ''time''
      else if k = ''fields.msg'' \<and> data ''msg'' \<noteq> None then data ''msg''
      else if k = ''fields.level'' \<and> data ''level'' \<noteq> None then data ''level''
      else data k)"
  by (cases "data ''time''"; cases "data ''msg''"; cases "data ''level''")
    (simp_all add: prefixFieldClashes_def index_def Let_def)


text \<open>
  C10. \<^verbatim>\<open>prefixFieldClashes\<close> deletes no entry and changes no value but those of
  \<^verbatim>\<open>fields.time\<close>, \<^verbatim>\<open>fields.msg\<close> and \<^verbatim>\<open>fields.level\<close>: for each of the keys
  \<^verbatim>\<open>time\<close>, \<^verbatim>\<open>msg\<close> and \<^verbatim>\<open>level\<close> that the map has, the key with
  \<^verbatim>\<open>fields.\<close> before it gets that key's value, whatever it held before, and every
  other key keeps its value.
\<close>

theorem prefixFieldClashes_frame:
  "dom data \<subseteq> dom (prefixFieldClashes data) \<and>
   prefixFieldClashes data k =
     (if k = ''fields.time'' \<and> data ''time'' \<noteq> None then data ''time''
      else if k = ''fields.msg'' \<and> data ''msg'' \<noteq> None then data ''msg''
      else if k = ''fields.level'' \<and> data ''level'' \<noteq> None then data ''level''
      else data k)"
proof
  show "dom data \<subseteq> dom (prefixFieldClashes data)"
  proof
    fix x
    assume "x \<in> dom data"
    then show "x \<in> dom (prefixFieldClashes data)"
      by (auto simp: prefixFieldClashes_apply dom_def)
  qed
next
  show "prefixFieldClashes data k =
     (if k = ''fields.time'' \<and> data ''time'' \<noteq> None then data ''time''
      else if k = ''fields.msg'' \<and> data ''msg'' \<noteq> None then data ''msg''
      else if k = ''fields.level'' \<and> data ''level'' \<noteq> None then data ''level''
      else data k)"
    by (rule prefixFieldClashes_apply)
qed


section \<open>Properties of the plain rendering\<close>

text \<open>
  C3. A string value is written bare exactly when every character of it is an ASCII
  letter, an ASCII digit, a hyphen or a period, and as a quoted string literal otherwise:
  in double quotes, with no line break left in it, every ASCII character escaped as
  \<open>ascii_escape\<close> says, an ill-formed byte written as \<^verbatim>\<open>\xff\<close> and a rune that is not
  printable as \<^verbatim>\<open>\u00ad\<close>. The text that \<^verbatim>\<open>Error()\<close> returns goes through the same
  test: an error whose text passes is written as that text, and one whose text fails is
  handed to \<^verbatim>\<open>%q\<close>, which writes the text as a quoted string literal when the type of
  the error has no \<^verbatim>\<open>Format\<close> method, and what that method writes when it has one. The
  value \<^verbatim>\<open>abc-1.2\<close> is written bare and \<^verbatim>\<open>hello world\<close> in double quotes.
\<close>

theorem appendKeyValue_quoting:
  "appendKeyValue rt b key (Str v) =
     b @ key @ ''='' @ (if all_bare v then v else Quote rt v) @ '' '' \<and>
   (appendKeyValue rt b key (Str v) = b @ key @ ''='' @ v @ '' '') = all_bare v \<and>
   appendKeyValue rt b key (Err m None) =
     b @ key @ ''='' @ (if all_bare m then m else Quote rt m) @ '' '' \<and>
   (appendKeyValue rt b key (Err m None) = b @ key @ ''='' @ m @ '' '') = all_bare m \<and>
   appendKeyValue rt b key (Err m (Some own)) =
     b @ key @ ''='' @ (if all_bare m then m else own Verb_q) @ '' '' \<and>
   (ascii v \<longrightarrow> Quote rt v = [CHR 0x22] @ concat (map ascii_escape v) @ [CHR 0x22]) \<and>
   one_line (Quote rt v) \<and>
   Quote rt [CHR 0xFF] = [CHR 0x22, CHR 0x5C, CHR ''x'', CHR ''f'', CHR ''f'', CHR 0x22] \<and>
   (unicode_IsPrint rt 0xE9 \<longrightarrow>
      Quote rt [CHR 0xC3, CHR 0xA9] = [CHR 0x22, CHR 0xC3, CHR 0xA9, CHR 0x22]) \<and>
   (\<not> unicode_IsPrint rt 0xAD \<longrightarrow>
      Quote rt [CHR 0xC2, CHR 0xAD] =
        [CHR 0x22, CHR 0x5C, CHR ''u'', CHR ''0'', CHR ''0'', CHR ''a'', CHR ''d'', CHR 0x22]) \<and>
   appendKeyValue rt b key (Str ''abc-1.2'') = b @ key @ ''=abc-1.2 '' \<and>
   appendKeyValue rt b key (Str ''hello world'') =
     b @ key @ ''='' @ [CHR 0x22] @ ''hello world'' @ [CHR 0x22] @ '' '' \<and>
   appendKeyValue rt b key (Str (''say '' @ [CHR 0x22] @ ''hi'' @ [CHR 0x22, CHR 0x0A])) =
     b @ key @ ''='' @ [CHR 0x22] @ ''say '' @ [CHR 0x5C, CHR 0x22] @ ''hi''
       @ [CHR 0x5C, CHR 0x22, CHR 0x5C, CHR ''n''] @ [CHR 0x22] @ '' ''"
proof (intro conjI impI)
  show s: "appendKeyValue rt b key (Str v) =
     b @ key @ ''='' @ (if all_bare v then v else Quote rt v) @ '' ''"
    by (simp add: appendKeyValue_def needsQuoting_all_bare)
  show "(appendKeyValue rt b key (Str v) = b @ key @ ''='' @ v @ '' '') = all_bare v"
    unfolding s using Quote_differs [of rt v] by simp
  show e: "appendKeyValue rt b key (Err m None) =
     b @ key @ ''='' @ (if all_bare m then m else Quote rt m) @ '' ''"
    by (simp add: appendKeyValue_def needsQuoting_all_bare fmt_error_def)
  show "(appendKeyValue rt b key (Err m None) = b @ key @ ''='' @ m @ '' '') = all_bare m"
    unfolding e using Quote_differs [of rt m] by simp
  show "appendKeyValue rt b key (Err m (Some own)) =
     b @ key @ ''='' @ (if all_bare m then m else own Verb_q) @ '' ''"
    by (simp add: appendKeyValue_def needsQuoting_all_bare fmt_error_def)
  show "Quote rt v = [CHR 0x22] @ concat (map ascii_escape v) @ [CHR 0x22]" if "ascii v"
    using that by (rule Quote_ascii)
  show "one_line (Quote rt v)"
    by (rule one_line_Quote)
  show "Quote rt [CHR 0xFF] = [CHR 0x22, CHR 0x5C, CHR ''x'', CHR ''f'', CHR ''f'', CHR 0x22]"
    by (simp add: Quote_def quoted_invalid)
  show "Quote rt [CHR 0xC3, CHR 0xA9] = [CHR 0x22, CHR 0xC3, CHR 0xA9, CHR 0x22]"
    if "unicode_IsPrint rt 0xE9"
    using that by (simp add: Quote_def quoted_e_acute)
  show "Quote rt [CHR 0xC2, CHR 0xAD] =
        [CHR 0x22, CHR 0x5C, CHR ''u'', CHR ''0'', CHR ''0'', CHR ''a'', CHR ''d'', CHR 0x22]"
    if "\<not> unicode_IsPrint rt 0xAD"
    using that by (simp add: Quote_def quoted_soft_hyphen)
  show "appendKeyValue rt b key (Str ''abc-1.2'') = b @ key @ ''=abc-1.2 ''"
    by (simp add: appendKeyValue_def needsQuoting_all_bare all_bare_def bare_char_def)
  show "appendKeyValue rt b key (Str ''hello world'') =
     b @ key @ ''='' @ [CHR 0x22] @ ''hello world'' @ [CHR 0x22] @ '' ''"
    by (simp add: appendKeyValue_def needsQuoting_all_bare all_bare_def bare_char_def
        Quote_hello_world)
  show "appendKeyValue rt b key (Str (''say '' @ [CHR 0x22] @ ''hi'' @ [CHR 0x22, CHR 0x0A])) =
     b @ key @ ''='' @ [CHR 0x22] @ ''say '' @ [CHR 0x5C, CHR 0x22] @ ''hi''
       @ [CHR 0x5C, CHR 0x22, CHR 0x5C, CHR ''n''] @ [CHR 0x22] @ '' ''"
    by (simp add: appendKeyValue_def needsQuoting_all_bare all_bare_def bare_char_def
        Quote_def quoted_ascii byte_def ascii_escape_def)
qed

theorem appendKeyValue_quoting_witness:
  "ascii [CHR ''a'', CHR 0x09, CHR 0x5C, CHR 0x7F, CHR ''b''] \<and>
   appendKeyValue sample_Runtime [] ''k'' (Str [CHR ''a'', CHR 0x09, CHR 0x5C, CHR 0x7F, CHR ''b'']) =
     ''k='' @ [CHR 0x22, CHR ''a'', CHR 0x5C, CHR ''t'', CHR 0x5C, CHR 0x5C,
               CHR 0x5C, CHR ''x'', CHR ''7'', CHR ''f'', CHR ''b'', CHR 0x22] @ '' '' \<and>
   unicode_IsPrint sample_Runtime 0xE9 \<and>
   appendKeyValue sample_Runtime [] ''k'' (Err [CHR 0xC3, CHR 0xA9] None) =
     ''k='' @ [CHR 0x22, CHR 0xC3, CHR 0xA9, CHR 0x22] @ '' '' \<and>
   \<not> unicode_IsPrint sample_Runtime 0xAD \<and>
   appendKeyValue sample_Runtime [] ''k'' (Str [CHR 0xC2, CHR 0xAD]) =
     ''k='' @ [CHR 0x22, CHR 0x5C, CHR ''u'', CHR ''0'', CHR ''0'', CHR ''a'', CHR ''d'', CHR 0x22]
       @ '' ''"
proof -
  have a: "ascii [CHR ''a'', CHR 0x09, CHR 0x5C, CHR 0x7F, CHR ''b'']"
    by (simp add: ascii_def byte_def)
  have n: "\<not> all_bare [CHR ''a'', CHR 0x09, CHR 0x5C, CHR 0x7F, CHR ''b'']"
    "\<not> all_bare [CHR 0xC3, CHR 0xA9]" "\<not> all_bare [CHR 0xC2, CHR 0xAD]"
    by (simp_all add: all_bare_def bare_char_def)
  have p: "unicode_IsPrint sample_Runtime 0xE9" "\<not> unicode_IsPrint sample_Runtime 0xAD"
    by (simp_all add: sample_Runtime_def)
  from appendKeyValue_quoting [of sample_Runtime "[]" "''k''"
      "[CHR ''a'', CHR 0x09, CHR 0x5C, CHR 0x7F, CHR ''b'']" "[CHR 0xC3, CHR 0xA9]"]
    appendKeyValue_quoting [of sample_Runtime "[]" "''k''" "[CHR 0xC2, CHR 0xAD]"]
    a n p
  show ?thesis
    by (simp add: ascii_escape_def byte_def hex_def lowerhex_def)
qed

theorem appendKeyValue_quoting_counterexample:
  "\<not> all_bare ''a b'' \<and>
   appendKeyValue sample_Runtime [] ''k'' (Err ''a b'' (Some sample_Format)) = ''k=<q:a b> '' \<and>
   appendKeyValue sample_Runtime [] ''k'' (Err ''a b'' (Some sample_Format)) \<noteq>
     ''k='' @ Quote sample_Runtime ''a b'' @ '' '' \<and>
   Quote sample_Runtime ''a b'' = [CHR 0x22] @ ''a b'' @ [CHR 0x22]"
proof -
  have n: "\<not> all_bare ''a b''"
    by (simp add: all_bare_def bare_char_def)
  have q: "Quote sample_Runtime ''a b'' = [CHR 0x22] @ ''a b'' @ [CHR 0x22]"
    by (simp add: Quote_def quoted_printable)
  have k: "appendKeyValue sample_Runtime [] ''k'' (Err ''a b'' (Some sample_Format)) =
      ''k=<q:a b> ''"
    using n by (simp add: appendKeyValue_def needsQuoting_all_bare fmt_error_def sample_Format_def)
  from n q k show ?thesis
    by simp
qed

text \<open>
  C5. \<^verbatim>\<open>Format\<close> renders in colors exactly when force-colors is set or the output is
  a terminal on an operating system other than Windows, and colors are not disabled;
  with colors disabled the line is the plain one even when force-colors is set.
\<close>

theorem Format_colorization:
  "snd (Format rt f order entry) =
     (if (ForceColors f \<or> (isTerminal rt \<and> GOOS rt \<noteq> ''windows'')) \<and> \<not> DisableColors f
      then (case printColored rt f [] (entry\<lparr>Data := prefixFieldClashes (Data entry)\<rparr>)
                   (field_keys f order) (layout f) of
              Inl p \<Rightarrow> Inl p
            | Inr b \<Rightarrow> Inr (b @ [CHR 0x0A], None))
      else Inr (plain_line rt f entry (prefixFieldClashes (Data entry)) (field_keys f order),
                None)) \<and>
   snd (Format rt (f\<lparr>ForceColors := True, DisableColors := True\<rparr>) order entry) =
     Inr (plain_line rt f entry (prefixFieldClashes (Data entry)) (field_keys f order), None)"
proof
  show "snd (Format rt f order entry) =
     (if (ForceColors f \<or> (isTerminal rt \<and> GOOS rt \<noteq> ''windows'')) \<and> \<not> DisableColors f
      then (case printColored rt f [] (entry\<lparr>Data := prefixFieldClashes (Data entry)\<rparr>)
                   (field_keys f order) (layout f) of
              Inl p \<Rightarrow> Inl p
            | Inr b \<Rightarrow> Inr (b @ [CHR 0x0A], None))
      else Inr (plain_line rt f entry (prefixFieldClashes (Data entry)) (field_keys f order),
                None))"
    unfolding colored_mode_def [symmetric]
  proof (cases "colored_mode rt f")
    case True
    then show "snd (Format rt f order entry) =
     (if colored_mode rt f
      then (case printColored rt f [] (entry\<lparr>Data := prefixFieldClashes (Data entry)\<rparr>)
                   (field_keys f order) (layout f) of
              Inl p \<Rightarrow> Inl p
            | Inr b \<Rightarrow> Inr (b @ [CHR 0x0A], None))
      else Inr (plain_line rt f entry (prefixFieldClashes (Data entry)) (field_keys f order),
                None))"
      by (simp only: Format_colored [OF True] snd_conv if_True)
  next
    case False
    then show "snd (Format rt f order entry) =
     (if colored_mode rt f
      then (case printColored rt f [] (entry\<lparr>Data := prefixFieldClashes (Data entry)\<rparr>)
                   (field_keys f order) (layout f) of
              Inl p \<Rightarrow> Inl p
            | Inr b \<Rightarrow> Inr (b @ [CHR 0x0A], None))
      else Inr (plain_line rt f entry (prefixFieldClashes (Data entry)) (field_keys f order),
                None))"
      by (simp only: Format_plain [OF False] snd_conv if_False)
  qed
next
  have "\<not> colored_mode rt (f\<lparr>ForceColors := True, DisableColors := True\<rparr>)"
    by (simp add: colored_mode_def)
  from Format_plain [OF this]
  show "snd (Format rt (f\<lparr>ForceColors := True, DisableColors := True\<rparr>) order entry) =
     Inr (plain_line rt f entry (prefixFieldClashes (Data entry)) (field_keys f order), None)"
    by (simp add: plain_line_def layout_def field_keys_def)
qed

text \<open>
  C6. In plain mode the line is the pairs \<^verbatim>\<open>time\<close> (unless timestamps are disabled),
  \<^verbatim>\<open>level\<close>, \<^verbatim>\<open>msg\<close> (unless the message is empty) and then one pair for every
  key of the map but \<^verbatim>\<open>prefix\<close>, in sorted order when sorting is enabled and in the
  order of the map otherwise; every pair ends with a space, and the newline follows the
  last one.
\<close>

theorem Format_plain_order:
  assumes "\<not> colored_mode rt f" and "distinct order" and "set order = dom (Data entry)"
  shows "snd (Format rt f order entry) =
      Inr (plain_line rt f entry (prefixFieldClashes (Data entry)) (field_keys f order), None) \<and>
    set (field_keys f order) = dom (Data entry) - {''prefix''} \<and>
    distinct (field_keys f order) \<and>
    (if DisableSorting f then field_keys f order = filter (\<lambda>k. k \<noteq> ''prefix'') order
     else sorted (field_keys f order))"
proof (intro conjI)
  show "snd (Format rt f order entry) =
      Inr (plain_line rt f entry (prefixFieldClashes (Data entry)) (field_keys f order), None)"
    by (simp only: Format_plain [OF assms(1)] snd_conv)
  show "set (field_keys f order) = dom (Data entry) - {''prefix''}"
    using assms(3) by (simp add: field_keys_set)
  show "distinct (field_keys f order)"
    using assms(2) by (rule field_keys_distinct)
  show "if DisableSorting f then field_keys f order = filter (\<lambda>k. k \<noteq> ''prefix'') order
     else sorted (field_keys f order)"
    by (simp add: field_keys_def)
qed

lemma sample_plain: "\<not> colored_mode sample_Runtime plain_formatter"
  by (simp add: colored_mode_def sample_Runtime_def plain_formatter_def)

theorem Format_plain_order_witness:
  "\<not> colored_mode sample_Runtime plain_formatter \<and>
   distinct [''q'', ''prefix'', ''n''] \<and>
   set [''q'', ''prefix'', ''n''] =
     dom (Data (sample_Entry\<lparr>Data := [''n'' \<mapsto> Other 5, ''q'' \<mapsto> Str ''hello world'',
                                     ''prefix'' \<mapsto> Str ''main'']\<rparr>)) \<and>
   snd (Format sample_Runtime plain_formatter [''q'', ''prefix'', ''n'']
         (sample_Entry\<lparr>Data := [''n'' \<mapsto> Other 5, ''q'' \<mapsto> Str ''hello world'',
                                ''prefix'' \<mapsto> Str ''main'']\<rparr>)) =
     Inr (''time='' @ [CHR 0x22] @ ''Jan  2 15:04:05'' @ [CHR 0x22] @ '' level=info msg=''
            @ [CHR 0x22] @ ''[worker] started job'' @ [CHR 0x22] @ '' n=5 q=''
            @ [CHR 0x22] @ ''hello world'' @ [CHR 0x22] @ '' '' @ [CHR 0x0A], None) \<and>
   field_keys plain_formatter [''q'', ''prefix'', ''n''] = [''n'', ''q'']"
proof -
  have k: "field_keys plain_formatter [''q'', ''prefix'', ''n''] = [''n'', ''q'']"
    by (simp add: field_keys_def plain_formatter_def)
  have d: "set [''q'', ''prefix'', ''n''] =
     dom (Data (sample_Entry\<lparr>Data := [''n'' \<mapsto> Other 5, ''q'' \<mapsto> Str ''hello world'',
                                     ''prefix'' \<mapsto> Str ''main'']\<rparr>))"
    by auto
  have "distinct [''q'', ''prefix'', ''n'']"
    by simp
  from Format_plain_order [OF sample_plain this d] k d sample_plain show ?thesis
    by (simp add: plain_line_def key_value_def value_text_def layout_def all_bare_def
        bare_char_def prefixFieldClashes_def index_def Quote_def quoted_printable decimal.simps
        digit_def
        sample_Runtime_def plain_formatter_def sample_Entry_def show_int_def time_Stamp_def)
qed

section \<open>Properties of the colored rendering\<close>

subsection \<open>The colored line\<close>

lemma lazy_group_takeWhile:
  "lazy_group cs =
    (if CHR '']'' \<in> set cs \<and> CHR 0x0A \<notin> set (takeWhile (\<lambda>x. x \<noteq> CHR '']'') cs)
     then Some (takeWhile (\<lambda>x. x \<noteq> CHR '']'') cs) else None)"
  by (induction cs) auto

lemma lazy_group_rest:
  "lazy_group cs = Some g \<Longrightarrow>
    drop (Suc (length g)) cs = tl (dropWhile (\<lambda>x. x \<noteq> CHR '']'') cs)"
  by (induction cs arbitrary: g) (auto split: if_splits)

lemma extractPrefix_cases:
  "extractPrefix rt msg =
    (case msg of
       [] \<Rightarrow> ([], msg)
     | c # cs \<Rightarrow>
        if c = CHR ''['' \<and> lazy_group cs \<noteq> None
        then (the (lazy_group cs), TrimSpace rt (tl (dropWhile (\<lambda>x. x \<noteq> CHR '']'') cs)))
        else ([], msg))"
proof (cases msg)
  case Nil
  then show ?thesis
    by (simp add: extractPrefix_def regex_MatchString_def)
next
  case (Cons c cs)
  show ?thesis
  proof (cases "c = CHR ''['' \<and> lazy_group cs \<noteq> None")
    case True
    then obtain g where g: "lazy_group cs = Some g"
      by auto
    from lazy_group_rest [OF g] True g Cons show ?thesis
      by (simp add: extractPrefix_def regex_MatchString_def regex_FindString_def Let_def)
  next
    case False
    with Cons show ?thesis
      by (auto simp: extractPrefix_def regex_MatchString_def)
  qed
qed

lemma displayed_extractPrefix:
  assumes "Data entry ''prefix'' = None"
  shows "(let (prefixValue, trimmedMsg) = extractPrefix rt (Message entry) in
          if prefixValue \<noteq> []
          then (pc @ '' '' @ prefixValue @ '':'' @ reset rt, trimmedMsg)
          else ([], Message entry)) =
    (case bracket_token (Message entry) of
       Some (token, rest) \<Rightarrow> (pc @ '' '' @ token @ '':'' @ reset rt, TrimSpace rt rest)
     | None \<Rightarrow> ([], Message entry))"
  by (cases "Message entry")
    (auto simp: extractPrefix_cases bracket_token_def lazy_group_takeWhile Let_def)

lemma printColored_line:
  assumes "Colors f = Some colors"
  shows "printColored rt f b entry keys timestampFormat =
    Inr (b @ prefix_color rt colors @ ''['' @ stamp rt f entry timestampFormat @ '']''
           @ reset rt @ '' '' @ levelColor_of rt colors (Level entry)
           @ verb_5s (levelText_of (Level entry)) @ reset rt
           @ fst (displayed rt colors entry) @ '' '' @ snd (displayed rt colors entry)
           @ concat (map (colored_field rt (levelColor_of rt colors (Level entry))
                            (Data entry)) keys))"
proof (cases "Data entry ''prefix''")
  case None
  show ?thesis
    unfolding printColored_def assms option.case Let_def None
      displayed_extractPrefix [OF None, unfolded Let_def]
    by (simp add: printColored_fields_concat displayed_def None annotation_def prefix_color_def
        stamp_def split: option.split)
next
  case (Some v)
  show ?thesis
    unfolding printColored_def assms option.case Let_def Some
    by (simp add: printColored_fields_concat displayed_def Some annotation_def prefix_color_def
        stamp_def)
qed

lemma level_label_eq: "verb_5s (levelText_of level) = level_label level"
  by (cases level; hypsubst; code_simp)

lemma TrimSpace_started_job: "TrimSpace rt '' started job'' = ''started job''"
  by (simp add: TrimSpace_def TrimRightFunc_def TrimLeftFunc.simps(2) lastIndexFunc.simps
      DecodeRuneInString.simps(2) DecodeLastRuneInString_def IsSpace_def byte_def Let_def)

lemma bracket_token_worker:
  "bracket_token ''[worker] started job'' = Some (''worker'', '' started job'')"
  by (simp add: bracket_token_def)


lemma colored_formatter_Colors: "Colors colored_formatter = Some default_Colors"
  by (simp add: colored_formatter_def plain_formatter_def)


lemma level_label_length: "5 \<le> length (level_label level)"
  by (cases level) simp_all


text \<open>
  C4. In colored mode a \<^verbatim>\<open>prefix\<close> field is rendered as the prefix annotation and the
  message is left as it is. Without that field, a message that starts with \<^verbatim>\<open>[\<close> and
  whose first \<^verbatim>\<open>]\<close> closes a non-empty token with no line break in it gives the token
  as the prefix, and the message displayed is what follows the \<^verbatim>\<open>]\<close>, with the
  white space trimmed at both ends. In every other case there is no annotation and the
  message is displayed as it is. The message \<^verbatim>\<open>[worker] started job\<close> gives the prefix
  \<^verbatim>\<open>worker\<close> and the message \<^verbatim>\<open>started job\<close>.
\<close>

theorem printColored_prefix:
  assumes "Colors f = Some colors"
  shows "printColored rt f b entry keys timestampFormat =
      Inr (b @ prefix_color rt colors @ ''['' @ stamp rt f entry timestampFormat @ '']''
             @ reset rt @ '' '' @ levelColor_of rt colors (Level entry)
             @ verb_5s (levelText_of (Level entry)) @ reset rt
             @ fst (displayed rt colors entry) @ '' '' @ snd (displayed rt colors entry)
             @ concat (map (colored_field rt (levelColor_of rt colors (Level entry))
                              (Data entry)) keys)) \<and>
    displayed rt colors
        (entry\<lparr>Data := (Data entry)(''prefix'' := None), Message := ''[worker] started job''\<rparr>) =
      (annotation rt colors ''worker'', ''started job'')"
proof
  show "printColored rt f b entry keys timestampFormat =
      Inr (b @ prefix_color rt colors @ ''['' @ stamp rt f entry timestampFormat @ '']''
             @ reset rt @ '' '' @ levelColor_of rt colors (Level entry)
             @ verb_5s (levelText_of (Level entry)) @ reset rt
             @ fst (displayed rt colors entry) @ '' '' @ snd (displayed rt colors entry)
             @ concat (map (colored_field rt (levelColor_of rt colors (Level entry))
                              (Data entry)) keys))"
    using assms by (rule printColored_line)
next
  show "displayed rt colors
        (entry\<lparr>Data := (Data entry)(''prefix'' := None), Message := ''[worker] started job''\<rparr>) =
      (annotation rt colors ''worker'', ''started job'')"
    by (simp add: displayed_def bracket_token_worker TrimSpace_started_job)
qed


theorem printColored_prefix_witness:
  "Colors colored_formatter = Some default_Colors \<and>
   printColored sample_Runtime colored_formatter [] sample_Entry [] time_Stamp =
     Inr (ansi_LightBlack sample_Runtime @ ''[Jan  2 15:04:05]'' @ ansi_Reset sample_Runtime
            @ '' '' @ ansi_Blue sample_Runtime @ '' INFO'' @ ansi_Reset sample_Runtime
            @ ansi_LightBlack sample_Runtime @ '' worker:'' @ ansi_Reset sample_Runtime
            @ '' started job'')"
proof -
  have d: "displayed sample_Runtime default_Colors sample_Entry =
      (annotation sample_Runtime default_Colors ''worker'', ''started job'')"
    by (simp add: displayed_def sample_Entry_def bracket_token_worker TrimSpace_started_job)
  have l: "verb_5s (levelText_of (Level sample_Entry)) = '' INFO''"
    by (simp add: sample_Entry_def level_label_eq)
  from printColored_prefix [OF colored_formatter_Colors, of sample_Runtime "[]" sample_Entry
      "[]" time_Stamp]
  show ?thesis
    unfolding d l
    by (simp add: colored_formatter_Colors annotation_def prefix_color_def stamp_def reset_def
        levelColor_of_def default_Colors_def colored_formatter_def plain_formatter_def
        sample_Entry_def sample_Runtime_def)
qed

theorem printColored_prefix_counterexample:
  "printColored sample_Runtime colored_formatter []
      (sample_Entry\<lparr>Message := [CHR ''['', CHR ''a'', CHR 0x0A, CHR ''b'', CHR '']'', CHR '' '',
                                 CHR ''c'']\<rparr>) [] time_Stamp =
     Inr (ansi_LightBlack sample_Runtime @ ''[Jan  2 15:04:05]'' @ ansi_Reset sample_Runtime
            @ '' '' @ ansi_Blue sample_Runtime @ '' INFO'' @ ansi_Reset sample_Runtime
            @ '' '' @ [CHR ''['', CHR ''a'', CHR 0x0A, CHR ''b'', CHR '']'', CHR '' '', CHR ''c'']) \<and>
   printColored sample_Runtime colored_formatter []
      (sample_Entry\<lparr>Message := ''[w] job  ''\<rparr>) [] time_Stamp =
     Inr (ansi_LightBlack sample_Runtime @ ''[Jan  2 15:04:05]'' @ ansi_Reset sample_Runtime
            @ '' '' @ ansi_Blue sample_Runtime @ '' INFO'' @ ansi_Reset sample_Runtime
            @ ansi_LightBlack sample_Runtime @ '' w:'' @ ansi_Reset sample_Runtime
            @ '' job'')"
proof
  have d: "displayed sample_Runtime default_Colors
      (sample_Entry\<lparr>Message := [CHR ''['', CHR ''a'', CHR 0x0A, CHR ''b'', CHR '']'', CHR '' '',
                                 CHR ''c'']\<rparr>) =
      ([], [CHR ''['', CHR ''a'', CHR 0x0A, CHR ''b'', CHR '']'', CHR '' '', CHR ''c''])"
    by (simp add: displayed_def sample_Entry_def bracket_token_def)
  have l: "verb_5s (levelText_of (Level (sample_Entry\<lparr>Message := m\<rparr>))) = '' INFO''" for m
    by (simp add: sample_Entry_def level_label_eq)
  show "printColored sample_Runtime colored_formatter []
      (sample_Entry\<lparr>Message := [CHR ''['', CHR ''a'', CHR 0x0A, CHR ''b'', CHR '']'', CHR '' '',
                                 CHR ''c'']\<rparr>) [] time_Stamp =
     Inr (ansi_LightBlack sample_Runtime @ ''[Jan  2 15:04:05]'' @ ansi_Reset sample_Runtime
            @ '' '' @ ansi_Blue sample_Runtime @ '' INFO'' @ ansi_Reset sample_Runtime
            @ '' '' @ [CHR ''['', CHR ''a'', CHR 0x0A, CHR ''b'', CHR '']'', CHR '' '', CHR ''c''])"
    unfolding printColored_line [OF colored_formatter_Colors] d l
    by (simp add: prefix_color_def stamp_def reset_def levelColor_of_def default_Colors_def
        colored_formatter_def plain_formatter_def sample_Entry_def sample_Runtime_def)
next
  have t: "TrimSpace rt '' job  '' = ''job''" for rt :: "(unit, int) Runtime"
    by (simp add: TrimSpace_def TrimRightFunc_def TrimLeftFunc.simps(2) lastIndexFunc.simps
        DecodeRuneInString.simps(2) DecodeLastRuneInString_def IsSpace_def byte_def Let_def)
  have d: "displayed sample_Runtime default_Colors (sample_Entry\<lparr>Message := ''[w] job  ''\<rparr>) =
      (annotation sample_Runtime default_Colors ''w'', ''job'')"
    by (simp add: displayed_def sample_Entry_def bracket_token_def t)
  have l: "verb_5s (levelText_of (Level (sample_Entry\<lparr>Message := m\<rparr>))) = '' INFO''" for m
    by (simp add: sample_Entry_def level_label_eq)
  show "printColored sample_Runtime colored_formatter []
      (sample_Entry\<lparr>Message := ''[w] job  ''\<rparr>) [] time_Stamp =
     Inr (ansi_LightBlack sample_Runtime @ ''[Jan  2 15:04:05]'' @ ansi_Reset sample_Runtime
            @ '' '' @ ansi_Blue sample_Runtime @ '' INFO'' @ ansi_Reset sample_Runtime
            @ ansi_LightBlack sample_Runtime @ '' w:'' @ ansi_Reset sample_Runtime
            @ '' job'')"
    unfolding printColored_line [OF colored_formatter_Colors] d l
    by (simp add: annotation_def prefix_color_def stamp_def reset_def levelColor_of_def
        default_Colors_def colored_formatter_def plain_formatter_def sample_Entry_def
        sample_Runtime_def)
qed

text \<open>
  C7. In colored mode the level label is the name of the level in capitals, in full
  (\<^verbatim>\<open>DEBUG\<close>, \<^verbatim>\<open>INFO\<close>, \<^verbatim>\<open>ERROR\<close>, \<^verbatim>\<open>FATAL\<close>, \<^verbatim>\<open>PANIC\<close>), padded with
  spaces on the left to five characters; for the level Warn the label is the fixed text
  \<^verbatim>\<open>WARN\<close>, whatever the name of the level is.
\<close>

theorem printColored_level_label:
  assumes "Colors f = Some colors"
  shows "(\<exists>rest. printColored rt f b entry keys timestampFormat =
        Inr (b @ prefix_color rt colors @ ''['' @ stamp rt f entry timestampFormat @ '']''
               @ reset rt @ '' '' @ levelColor_of rt colors (Level entry)
               @ level_label (Level entry) @ reset rt @ rest)) \<and>
    level_label (Level entry) =
      replicate (5 - length (levelText_of (Level entry))) CHR '' '' @ levelText_of (Level entry) \<and>
    levelText_of (Level entry) =
      (if Level entry = WarnLevel then ''WARN'' else ToUpper (Level_String (Level entry))) \<and>
    5 \<le> length (level_label (Level entry))"
proof (intro conjI)
  from printColored_line [OF assms, of rt b entry keys timestampFormat]
  show "\<exists>rest. printColored rt f b entry keys timestampFormat =
        Inr (b @ prefix_color rt colors @ ''['' @ stamp rt f entry timestampFormat @ '']''
               @ reset rt @ '' '' @ levelColor_of rt colors (Level entry)
               @ level_label (Level entry) @ reset rt @ rest)"
    unfolding level_label_eq
    by (intro exI [where x = "fst (displayed rt colors entry) @ '' ''
          @ snd (displayed rt colors entry)
          @ concat (map (colored_field rt (levelColor_of rt colors (Level entry))
                           (Data entry)) keys)"]) simp
  show "level_label (Level entry) =
      replicate (5 - length (levelText_of (Level entry))) CHR '' '' @ levelText_of (Level entry)"
    by (simp add: level_label_eq [symmetric] verb_5s_def)
  show "levelText_of (Level entry) =
      (if Level entry = WarnLevel then ''WARN'' else ToUpper (Level_String (Level entry)))"
    by (simp add: levelText_of_def)
  show "5 \<le> length (level_label (Level entry))"
    by (rule level_label_length)
qed

theorem printColored_level_label_witness:
  "Colors colored_formatter = Some default_Colors \<and>
   (\<exists>rest. printColored sample_Runtime colored_formatter []
        (sample_Entry\<lparr>Level := WarnLevel\<rparr>) [] time_Stamp =
      Inr (ansi_LightBlack sample_Runtime @ ''[Jan  2 15:04:05]'' @ ansi_Reset sample_Runtime
             @ '' '' @ ansi_Yellow sample_Runtime @ '' WARN'' @ ansi_Reset sample_Runtime @ rest)) \<and>
   levelText_of (Level (sample_Entry\<lparr>Level := WarnLevel\<rparr>)) = ''WARN''"
proof -
  have "(\<exists>rest. printColored sample_Runtime colored_formatter []
          (sample_Entry\<lparr>Level := WarnLevel\<rparr>) [] time_Stamp =
        Inr ([] @ prefix_color sample_Runtime default_Colors @ ''[''
               @ stamp sample_Runtime colored_formatter (sample_Entry\<lparr>Level := WarnLevel\<rparr>)
                   time_Stamp @ '']''
               @ reset sample_Runtime @ '' ''
               @ levelColor_of sample_Runtime default_Colors
                   (Level (sample_Entry\<lparr>Level := WarnLevel\<rparr>))
               @ level_label (Level (sample_Entry\<lparr>Level := WarnLevel\<rparr>))
               @ reset sample_Runtime @ rest)) \<and>
    level_label (Level (sample_Entry\<lparr>Level := WarnLevel\<rparr>)) =
      replicate (5 - length (levelText_of (Level (sample_Entry\<lparr>Level := WarnLevel\<rparr>))))
        CHR '' '' @ levelText_of (Level (sample_Entry\<lparr>Level := WarnLevel\<rparr>)) \<and>
    levelText_of (Level (sample_Entry\<lparr>Level := WarnLevel\<rparr>)) =
      (if Level (sample_Entry\<lparr>Level := WarnLevel\<rparr>) = WarnLevel then ''WARN''
       else ToUpper (Level_String (Level (sample_Entry\<lparr>Level := WarnLevel\<rparr>)))) \<and>
    5 \<le> length (level_label (Level (sample_Entry\<lparr>Level := WarnLevel\<rparr>)))"
    by (rule printColored_level_label [OF colored_formatter_Colors])
  then obtain rest where r: "printColored sample_Runtime colored_formatter []
          (sample_Entry\<lparr>Level := WarnLevel\<rparr>) [] time_Stamp =
        Inr ([] @ prefix_color sample_Runtime default_Colors @ ''[''
               @ stamp sample_Runtime colored_formatter (sample_Entry\<lparr>Level := WarnLevel\<rparr>)
                   time_Stamp @ '']''
               @ reset sample_Runtime @ '' ''
               @ levelColor_of sample_Runtime default_Colors
                   (Level (sample_Entry\<lparr>Level := WarnLevel\<rparr>))
               @ level_label (Level (sample_Entry\<lparr>Level := WarnLevel\<rparr>))
               @ reset sample_Runtime @ rest)"
    and t: "levelText_of (Level (sample_Entry\<lparr>Level := WarnLevel\<rparr>)) =
      (if Level (sample_Entry\<lparr>Level := WarnLevel\<rparr>) = WarnLevel then ''WARN''
       else ToUpper (Level_String (Level (sample_Entry\<lparr>Level := WarnLevel\<rparr>))))"
    by (elim conjE exE)
  have "printColored sample_Runtime colored_formatter []
        (sample_Entry\<lparr>Level := WarnLevel\<rparr>) [] time_Stamp =
      Inr (ansi_LightBlack sample_Runtime @ ''[Jan  2 15:04:05]'' @ ansi_Reset sample_Runtime
             @ '' '' @ ansi_Yellow sample_Runtime @ '' WARN'' @ ansi_Reset sample_Runtime @ rest)"
    unfolding r
    by (simp add: prefix_color_def stamp_def reset_def levelColor_of_def
      default_Colors_def colored_formatter_def plain_formatter_def sample_Runtime_def)
  moreover from t have "levelText_of (Level (sample_Entry\<lparr>Level := WarnLevel\<rparr>)) = ''WARN''"
    by simp
  ultimately show ?thesis
    using colored_formatter_Colors by (intro conjI exI [of _ rest])
qed

theorem printColored_level_label_counterexample:
  "levelText_of DebugLevel = ''DEBUG'' \<and>
   levelText_of DebugLevel \<noteq> ''DEBU'' \<and>
   verb_5s (levelText_of ErrorLevel) = ''ERROR'' \<and>
   printColored sample_Runtime colored_formatter [] (sample_Entry\<lparr>Level := DebugLevel\<rparr>) []
       time_Stamp =
     Inr (ansi_LightBlack sample_Runtime @ ''[Jan  2 15:04:05]'' @ ansi_Reset sample_Runtime
            @ '' '' @ ansi_White sample_Runtime @ ''DEBUG'' @ ansi_Reset sample_Runtime
            @ ansi_LightBlack sample_Runtime @ '' worker:'' @ ansi_Reset sample_Runtime
            @ '' started job'')"
proof (intro conjI)
  show t: "levelText_of DebugLevel = ''DEBUG''"
    by code_simp
  then show "levelText_of DebugLevel \<noteq> ''DEBU''"
    by simp
  show "verb_5s (levelText_of ErrorLevel) = ''ERROR''"
    by (simp add: level_label_eq)
  have d: "displayed sample_Runtime default_Colors (sample_Entry\<lparr>Level := DebugLevel\<rparr>) =
      (annotation sample_Runtime default_Colors ''worker'', ''started job'')"
    by (simp add: displayed_def sample_Entry_def bracket_token_worker TrimSpace_started_job)
  show "printColored sample_Runtime colored_formatter [] (sample_Entry\<lparr>Level := DebugLevel\<rparr>) []
       time_Stamp =
     Inr (ansi_LightBlack sample_Runtime @ ''[Jan  2 15:04:05]'' @ ansi_Reset sample_Runtime
            @ '' '' @ ansi_White sample_Runtime @ ''DEBUG'' @ ansi_Reset sample_Runtime
            @ ansi_LightBlack sample_Runtime @ '' worker:'' @ ansi_Reset sample_Runtime
            @ '' started job'')"
    unfolding printColored_line [OF colored_formatter_Colors] d
    by (simp add: level_label_eq annotation_def prefix_color_def stamp_def reset_def
        levelColor_of_def default_Colors_def colored_formatter_def plain_formatter_def
        sample_Entry_def sample_Runtime_def)
qed

section \<open>Line breaks\<close>

subsection \<open>Texts of one line\<close>

lemma one_line_simps [simp]:
  "one_line []"
  "one_line (c # s) = (c \<noteq> CHR 0x0A \<and> one_line s)"
  "one_line (s @ t) = (one_line s \<and> one_line t)"
  by (auto simp: one_line_def)

lemma one_line_concat: "one_line (concat xs) = list_all one_line xs"
  by (induction xs) simp_all

lemma one_line_subset: "set s \<subseteq> set t \<Longrightarrow> one_line t \<Longrightarrow> one_line s"
  by (auto simp: one_line_def)

text \<open>
  Trimming takes characters away and adds none, and the bracketed token and the rest of
  the message are parts of the message.
\<close>

lemma TrimLeftFunc_subset: "set (TrimLeftFunc p s) \<subseteq> set s"
proof (induction p s rule: TrimLeftFunc.induct)
  case (1 p)
  show ?case
    by simp
next
  case (2 p c cs)
  obtain r w where d: "DecodeRuneInString (c # cs) = (r, w)"
    by (cases "DecodeRuneInString (c # cs)")
  show ?case
  proof (cases "p r")
    case True
    from 2 [OF d [symmetric] refl True] set_drop_subset [of w "c # cs"]
    have "set (TrimLeftFunc p (drop w (c # cs))) \<subseteq> set (c # cs)"
      by blast
    with True d show ?thesis
      by (subst TrimLeftFunc.simps(2)) simp
  next
    case False
    with d show ?thesis
      by (subst TrimLeftFunc.simps(2)) simp
  qed
qed

lemma TrimRightFunc_subset: "set (TrimRightFunc p s) \<subseteq> set s"
proof (cases "lastIndexFunc p s")
  case None
  then show ?thesis
    by (simp add: TrimRightFunc_def)
next
  case (Some i)
  obtain r w where d: "DecodeRuneInString (drop i s) = (r, w)"
    by (cases "DecodeRuneInString (drop i s)")
  from Some d set_take_subset [of "i + w" s] set_take_subset [of "i + 1" s] show ?thesis
    by (simp add: TrimRightFunc_def)
qed

lemma TrimSpace_subset: "set (TrimSpace rt s) \<subseteq> set s"
  unfolding TrimSpace_def
  using TrimRightFunc_subset [of "IsSpace rt" "TrimLeftFunc (IsSpace rt) s"]
    TrimLeftFunc_subset [of "IsSpace rt" s]
  by blast

lemma one_line_TrimSpace: "one_line s \<Longrightarrow> one_line (TrimSpace rt s)"
  using TrimSpace_subset by (rule one_line_subset)

lemma bracket_token_one_line:
  assumes "bracket_token msg = Some (token, rest)" and "one_line msg"
  shows "one_line token \<and> one_line rest"
proof (cases msg)
  case Nil
  with assms(1) show ?thesis
    by (simp add: bracket_token_def)
next
  case (Cons c cs)
  with assms(1) have t: "token = takeWhile (\<lambda>x. x \<noteq> CHR '']'') cs"
    and r: "rest = tl (dropWhile (\<lambda>x. x \<noteq> CHR '']'') cs)"
    by (auto simp: bracket_token_def Let_def split: if_splits)
  have "set token \<subseteq> set msg"
    unfolding t Cons using set_takeWhileD by fastforce
  moreover have "set rest \<subseteq> set msg"
  proof
    fix x
    assume "x \<in> set rest"
    then have "x \<in> set (dropWhile (\<lambda>x. x \<noteq> CHR '']'') cs)"
      unfolding r by (cases "dropWhile (\<lambda>x. x \<noteq> CHR '']'') cs") simp_all
    then have "x \<in> set cs"
      by (rule set_dropWhileD)
    then show "x \<in> set msg"
      by (simp add: Cons)
  qed
  ultimately show ?thesis
    using assms(2) one_line_subset by blast
qed

lemma one_line_level_label: "one_line (level_label level)"
  by (cases level) simp_all

lemma one_line_decimal: "one_line (decimal n)"
proof (induction n rule: decimal.induct)
  case (1 n)
  have "digit n \<in> set ''0123456789''"
    unfolding digit_def by (rule nth_mem) simp
  then have d: "digit n \<noteq> CHR 0x0A"
    by auto
  show ?case
  proof (cases "n < 10")
    case True
    with d show ?thesis
      by (subst decimal.simps) simp
  next
    case False
    with 1 d show ?thesis
      by (subst decimal.simps) simp
  qed
qed

lemma one_line_replicate: "c \<noteq> CHR 0x0A \<Longrightarrow> one_line (replicate n c)"
  by (simp add: one_line_def)

lemma one_line_verb_04d: "one_line (verb_04d n)"
  by (simp add: verb_04d_def one_line_decimal one_line_replicate)

subsection \<open>The values that are rendered\<close>

text \<open>
  After the clash resolution, the value read under a key other than \<^verbatim>\<open>prefix\<close> is
  the nil interface or a value that the map held before under such a key, and the value
  of \<^verbatim>\<open>prefix\<close> is untouched.
\<close>

lemma prefixFieldClashes_cases:
  "prefixFieldClashes data k = data ''time'' \<or>
      prefixFieldClashes data k = data ''msg'' \<or>
      prefixFieldClashes data k = data ''level'' \<or> prefixFieldClashes data k = data k"
  by (simp only: prefixFieldClashes_apply split: if_split) blast

lemma prefixFieldClashes_value:
  assumes "index (prefixFieldClashes data) k = v" and "k \<noteq> ''prefix''"
  shows "v = Nil \<or> (\<exists>k'. k' \<noteq> ''prefix'' \<and> data k' = Some v)"
proof (cases "prefixFieldClashes data k")
  case None
  with assms(1) show ?thesis
    by (simp add: index_def)
next
  case (Some w)
  with assms(1) have w: "prefixFieldClashes data k = Some v"
    by (simp add: index_def)
  have ne: "''time'' \<noteq> ''prefix''" "''msg'' \<noteq> ''prefix''" "''level'' \<noteq> ''prefix''"
    by simp_all
  from prefixFieldClashes_cases [of data k]
  have "\<exists>k'. k' \<noteq> ''prefix'' \<and> data k' = Some v"
  proof (elim disjE)
    assume "prefixFieldClashes data k = data ''time''"
    with w have "data ''time'' = Some v"
      by simp
    with ne(1) show ?thesis
      by (intro exI conjI)
  next
    assume "prefixFieldClashes data k = data ''msg''"
    with w have "data ''msg'' = Some v"
      by simp
    with ne(2) show ?thesis
      by (intro exI conjI)
  next
    assume "prefixFieldClashes data k = data ''level''"
    with w have "data ''level'' = Some v"
      by simp
    with ne(3) show ?thesis
      by (intro exI conjI)
  next
    assume "prefixFieldClashes data k = data k"
    with w have "data k = Some v"
      by simp
    with assms(2) show ?thesis
      by (intro exI conjI)
  qed
  then show ?thesis
    by (rule disjI2)
qed

lemma prefixFieldClashes_prefix: "prefixFieldClashes data ''prefix'' = data ''prefix''"
proof -
  have "''prefix'' \<noteq> ''fields.time''" "''prefix'' \<noteq> ''fields.msg''"
    "''prefix'' \<noteq> ''fields.level''"
    by simp_all
  then show ?thesis
    by (simp only: prefixFieldClashes_apply simp_thms if_False)
qed

subsection \<open>The plain line\<close>

lemma all_bare_one_line: "all_bare s \<Longrightarrow> one_line s"
  unfolding one_line_def
proof
  assume "all_bare s" and "CHR 0x0A \<in> set s"
  then have "bare_char (CHR 0x0A)"
    by (auto simp: all_bare_def list_all_iff)
  then show False
    by (simp add: bare_char_ranges)
qed

lemma one_line_value_text_Str: "one_line (value_text rt (Str s))"
  by (simp add: value_text_def all_bare_one_line one_line_Quote)

lemma one_line_key_value_Str: "one_line (key_value rt k (Str s)) = one_line k"
  by (simp add: key_value_def one_line_value_text_Str)

lemma butlast_plain_line:
  "butlast (plain_line rt f entry data keys) =
    (if DisableTimestamp f then []
     else key_value rt ''time'' (Str (time_Format rt (Time entry) (layout f))))
    @ key_value rt ''level'' (Str (Level_String (Level entry)))
    @ (if Message entry = [] then [] else key_value rt ''msg'' (Str (Message entry)))
    @ concat (map (\<lambda>k. key_value rt k (index data k)) keys)"
  unfolding plain_line_def by (simp only: append_assoc [symmetric] butlast_snoc)

lemma one_line_plain_line:
  "one_line (butlast (plain_line rt f entry data keys)) =
     list_all one_line (plain_texts rt data keys)"
proof -
  have "list_all one_line (map (\<lambda>k. key_value rt k (index data k)) keys) =
      list_all one_line (plain_texts rt data keys)"
    by (induction keys) (auto simp: plain_texts_def key_value_def list_all_iff)
  then show ?thesis
    unfolding butlast_plain_line
    by (simp add: one_line_key_value_Str one_line_concat)
qed

lemma one_line_value_text:
  assumes "\<And>x. v = Other x \<Longrightarrow> one_line (fmt_v rt x)"
    and "\<And>m own. v = Err m (Some own) \<Longrightarrow> all_bare m \<or> one_line (own Verb_q)"
  shows "one_line (value_text rt v)"
proof (cases v)
  case (Str s)
  then show ?thesis
    by (simp add: one_line_value_text_Str)
next
  case (Err m own)
  show ?thesis
  proof (cases own)
    case None
    with Err show ?thesis
      by (simp add: value_text_def fmt_error_def all_bare_one_line one_line_Quote)
  next
    case (Some F)
    with Err assms(2) [of m F] show ?thesis
      by (auto simp: value_text_def fmt_error_def all_bare_one_line)
  qed
next
  case (Other x)
  with assms(1) show ?thesis
    by (simp add: value_text_def)
next
  case Nil
  then show ?thesis
    by (simp add: value_text_def)
qed

lemma plain_texts_one_line:
  assumes keys: "\<forall>k \<in> set keys. one_line k \<and> k \<noteq> ''prefix''"
    and vals: "\<forall>k x. data k = Some (Other x) \<longrightarrow> k \<noteq> ''prefix'' \<longrightarrow>
                 one_line (fmt_v rt x)"
    and errs: "\<forall>k m own. data k = Some (Err m (Some own)) \<longrightarrow> k \<noteq> ''prefix'' \<longrightarrow>
                 all_bare m \<or> one_line (own Verb_q)"
  shows "list_all one_line (plain_texts rt (prefixFieldClashes data) keys)"
proof -
  have "one_line (value_text rt (index (prefixFieldClashes data) k))" if "k \<in> set keys" for k
  proof (rule one_line_value_text)
    fix x
    assume "index (prefixFieldClashes data) k = Other x"
    from prefixFieldClashes_value [OF this] that keys vals show "one_line (fmt_v rt x)"
      by blast
  next
    fix m own
    assume "index (prefixFieldClashes data) k = Err m (Some own)"
    from prefixFieldClashes_value [OF this] that keys errs
    show "all_bare m \<or> one_line (own Verb_q)"
      by blast
  qed
  with keys show ?thesis
    by (auto simp: plain_texts_def list_all_iff)
qed

subsection \<open>The colored line and its texts\<close>

lemma one_line_colored_fields:
  "list_all one_line (map (colored_field rt levelColor data) keys) =
    (keys = [] \<or> (one_line levelColor \<and> one_line (reset rt) \<and> list_all one_line keys \<and>
       list_all one_line (map (\<lambda>k. verb_plus_v rt (index data k)) keys)))"
  by (induction keys) (auto simp: colored_field_def)

lemma one_line_printColored:
  assumes "Colors f = Some colors" and "printColored rt f [] entry keys (layout f) = Inr b"
  shows "one_line b = list_all one_line (colored_texts rt f colors entry keys)"
proof -
  from assms(2) have b: "b = prefix_color rt colors @ ''['' @ stamp rt f entry (layout f) @ '']''
           @ reset rt @ '' '' @ levelColor_of rt colors (Level entry)
           @ level_label (Level entry) @ reset rt
           @ fst (displayed rt colors entry) @ '' '' @ snd (displayed rt colors entry)
           @ concat (map (colored_field rt (levelColor_of rt colors (Level entry))
                            (Data entry)) keys)"
    unfolding printColored_line [OF assms(1)] level_label_eq by simp
  have "one_line b =
    (one_line (prefix_color rt colors) \<and> one_line (stamp rt f entry (layout f)) \<and>
     one_line (reset rt) \<and> one_line (levelColor_of rt colors (Level entry)) \<and>
     one_line (fst (displayed rt colors entry)) \<and> one_line (snd (displayed rt colors entry)) \<and>
     list_all one_line (map (colored_field rt (levelColor_of rt colors (Level entry))
                            (Data entry)) keys))"
    unfolding b by (simp add: one_line_concat one_line_level_label) blast
  also have "\<dots> = list_all one_line (colored_texts rt f colors entry keys)"
  proof (cases "keys = []")
    case True
    then show ?thesis
      by (simp add: colored_texts_def)
  next
    case False
    then show ?thesis
      unfolding one_line_colored_fields colored_texts_def by auto
  qed
  finally show ?thesis .
qed

lemma one_line_displayed:
  assumes pc: "one_line (prefix_color rt colors)" and rs: "one_line (reset rt)"
    and msg: "one_line (Message entry)"
    and pv: "\<forall>v. Data entry ''prefix'' = Some v \<longrightarrow> one_line (verb_s rt v)"
  shows "one_line (fst (displayed rt colors entry)) \<and> one_line (snd (displayed rt colors entry))"
proof (cases "Data entry ''prefix''")
  case (Some v)
  with pv have "one_line (verb_s rt v)"
    by simp
  with Some pc rs msg show ?thesis
    by (simp add: displayed_def annotation_def)
next
  case None
  show ?thesis
  proof (cases "bracket_token (Message entry)")
    case no: None
    with None msg show ?thesis
      by (simp add: displayed_def)
  next
    case (Some p)
    obtain token rest where p: "p = (token, rest)"
      by (cases p)
    from bracket_token_one_line [OF Some [unfolded p] msg] one_line_TrimSpace [of rest rt]
    have "one_line token" "one_line (TrimSpace rt rest)"
      by simp_all
    with None Some p pc rs show ?thesis
      by (simp add: displayed_def annotation_def)
  qed
qed

lemma colored_texts_one_line:
  assumes pc: "one_line (prefix_color rt colors)"
    and lc: "one_line (levelColor_of rt colors (Level entry))"
    and rs: "one_line (reset rt)"
    and ts: "ShortTimestamp f \<or> one_line (time_Format rt (Time entry) (layout f))"
    and msg: "one_line (Message entry)"
    and keys: "\<forall>k \<in> set keys. one_line k \<and> k \<noteq> ''prefix''"
    and vals: "\<forall>k v. Data entry k = Some v \<longrightarrow> k \<noteq> ''prefix'' \<longrightarrow>
                 one_line (verb_plus_v rt v)"
    and pv: "\<forall>v. Data entry ''prefix'' = Some v \<longrightarrow> one_line (verb_s rt v)"
  shows "list_all one_line
    (colored_texts rt f colors (entry\<lparr>Data := prefixFieldClashes (Data entry)\<rparr>) keys)"
proof -
  let ?e = "entry\<lparr>Data := prefixFieldClashes (Data entry)\<rparr>"
  have st: "one_line (stamp rt f ?e (layout f))"
    using ts by (auto simp: stamp_def one_line_verb_04d)
  have "\<forall>v. Data ?e ''prefix'' = Some v \<longrightarrow> one_line (verb_s rt v)"
    using pv by (simp add: prefixFieldClashes_prefix)
  with pc rs msg
  have d: "one_line (fst (displayed rt colors ?e)) \<and> one_line (snd (displayed rt colors ?e))"
    by (intro one_line_displayed) simp_all
  have v: "one_line (verb_plus_v rt (index (prefixFieldClashes (Data entry)) k))"
    if "k \<in> set keys" for k
  proof -
    from that keys have "k \<noteq> ''prefix''"
      by blast
    from prefixFieldClashes_value [OF refl this, of "Data entry"] vals show ?thesis
      by auto
  qed
  from pc lc rs st d keys v show ?thesis
    by (auto simp: colored_texts_def list_all_iff)
qed

subsection \<open>The line that Format returns\<close>

lemma field_keys_one_line:
  "\<forall>k \<in> set order. one_line k \<Longrightarrow>
    \<forall>k \<in> set (field_keys f order). one_line k \<and> k \<noteq> ''prefix''"
  by (simp add: field_keys_set)


lemma sample_colored: "colored_mode sample_Runtime colored_formatter"
  by (simp add: colored_mode_def colored_formatter_def plain_formatter_def)

lemma quoted_newline: "quoted rt (CHR 0x0A # cs) = [CHR 0x5C, CHR ''n''] @ quoted rt cs"
  by (subst quoted.simps(2))
    (simp add: byte_def appendEscapedRune_def IsPrint_def RuneError_def)


text \<open>
  C9. Whenever \<^verbatim>\<open>Format\<close> returns, the bytes end with the newline that it appends and
  the error is nil. That newline is the only line break of the output exactly when none
  of the texts that are written as they are has one. In plain mode these are the keys of
  the fields and what is written for their values: the timestamp, the message, every
  string and the text of every error whose type has no \<^verbatim>\<open>Format\<close> method are written
  quoted, with the line break escaped, as soon as they have one, so the line is one line
  as soon as no key, no rendering of a value that is neither a string nor an error, and
  no rendering under \<^verbatim>\<open>%q\<close> by an error's own \<^verbatim>\<open>Format\<close> method has a line break. In
  colored mode these are the colors, the reset sequence, the timestamp, the annotation,
  the displayed message, the keys and the values as \<^verbatim>\<open>%+v\<close> writes them: the line is
  one line as soon as the colors, the reset sequence, the formatted time, the message,
  the keys, the values under \<^verbatim>\<open>%+v\<close> and the \<^verbatim>\<open>prefix\<close> value under \<^verbatim>\<open>%s\<close> have
  no line break.
\<close>

theorem Format_newline:
  assumes "snd (Format rt f order entry) = Inr (out, err)"
  shows "out \<noteq> [] \<and> last out = CHR 0x0A \<and> err = None \<and>
    (\<not> colored_mode rt f \<longrightarrow>
       one_line (butlast out) =
         list_all one_line
           (plain_texts rt (prefixFieldClashes (Data entry)) (field_keys f order))) \<and>
    (\<not> colored_mode rt f \<longrightarrow>
       (\<forall>k \<in> set order. one_line k) \<longrightarrow>
       (\<forall>k x. Data entry k = Some (Other x) \<longrightarrow> k \<noteq> ''prefix'' \<longrightarrow>
          one_line (fmt_v rt x)) \<longrightarrow>
       (\<forall>k m own. Data entry k = Some (Err m (Some own)) \<longrightarrow> k \<noteq> ''prefix'' \<longrightarrow>
          all_bare m \<or> one_line (own Verb_q)) \<longrightarrow>
       one_line (butlast out)) \<and>
    (colored_mode rt f \<longrightarrow>
       (\<exists>colors. Colors f = Some colors \<and>
          one_line (butlast out) =
            list_all one_line
              (colored_texts rt f colors (entry\<lparr>Data := prefixFieldClashes (Data entry)\<rparr>)
                 (field_keys f order)))) \<and>
    (colored_mode rt f \<longrightarrow>
       (\<forall>colors. Colors f = Some colors \<longrightarrow>
          one_line (prefix_color rt colors) \<and>
          one_line (levelColor_of rt colors (Level entry))) \<longrightarrow>
       one_line (reset rt) \<longrightarrow>
       (ShortTimestamp f \<or> one_line (time_Format rt (Time entry) (layout f))) \<longrightarrow>
       one_line (Message entry) \<longrightarrow>
       (\<forall>k \<in> set order. one_line k) \<longrightarrow>
       (\<forall>k v. Data entry k = Some v \<longrightarrow> k \<noteq> ''prefix'' \<longrightarrow>
          one_line (verb_plus_v rt v)) \<longrightarrow>
       (\<forall>v. Data entry ''prefix'' = Some v \<longrightarrow> one_line (verb_s rt v)) \<longrightarrow>
       one_line (butlast out))"
proof (cases "colored_mode rt f")
  case True
  let ?e = "entry\<lparr>Data := prefixFieldClashes (Data entry)\<rparr>"
  from assms obtain b where p: "printColored rt f [] ?e (field_keys f order) (layout f) = Inr b"
    and out: "out = b @ [CHR 0x0A]" and err: "err = None"
    unfolding Format_colored [OF True] snd_conv by (auto split: sum.splits)
  from p obtain colors where c: "Colors f = Some colors"
    by (cases "Colors f") (simp_all add: printColored_def)
  have x: "one_line (butlast out) =
      list_all one_line (colored_texts rt f colors ?e (field_keys f order))"
    unfolding out butlast_snoc by (rule one_line_printColored [OF c p])
  have s: "one_line (butlast out)"
    if "\<forall>colors. Colors f = Some colors \<longrightarrow>
          one_line (prefix_color rt colors) \<and> one_line (levelColor_of rt colors (Level entry))"
      and "one_line (reset rt)"
      and "ShortTimestamp f \<or> one_line (time_Format rt (Time entry) (layout f))"
      and "one_line (Message entry)"
      and "\<forall>k \<in> set order. one_line k"
      and "\<forall>k v. Data entry k = Some v \<longrightarrow> k \<noteq> ''prefix'' \<longrightarrow> one_line (verb_plus_v rt v)"
      and "\<forall>v. Data entry ''prefix'' = Some v \<longrightarrow> one_line (verb_s rt v)"
    unfolding x using that c
    by (intro colored_texts_one_line field_keys_one_line) simp_all
  have "out \<noteq> []" "last out = CHR 0x0A"
    unfolding out by simp_all
  with err True c x s show ?thesis
    by blast
next
  case False
  from assms have out: "out = plain_line rt f entry (prefixFieldClashes (Data entry))
      (field_keys f order)" and err: "err = None"
    unfolding Format_plain [OF False] snd_conv by simp_all
  have n: "out \<noteq> []" "last out = CHR 0x0A"
    unfolding out plain_line_def by simp_all
  have x: "one_line (butlast out) =
      list_all one_line (plain_texts rt (prefixFieldClashes (Data entry)) (field_keys f order))"
    unfolding out by (rule one_line_plain_line)
  have s: "one_line (butlast out)"
    if "\<forall>k \<in> set order. one_line k"
      and "\<forall>k x. Data entry k = Some (Other x) \<longrightarrow> k \<noteq> ''prefix'' \<longrightarrow> one_line (fmt_v rt x)"
      and "\<forall>k m own. Data entry k = Some (Err m (Some own)) \<longrightarrow> k \<noteq> ''prefix'' \<longrightarrow>
          all_bare m \<or> one_line (own Verb_q)"
    unfolding x using that
    by (intro plain_texts_one_line field_keys_one_line) simp_all
  from n err False x s show ?thesis
    by blast
qed

theorem Format_newline_witness:
  "snd (Format sample_Runtime plain_formatter [''q'', ''e'']
         (sample_Entry\<lparr>Data := [''q'' \<mapsto> Str [CHR ''a'', CHR 0x0A, CHR ''b''],
                                ''e'' \<mapsto> Err ''a b'' (Some sample_Format)],
                         Message := [CHR ''x'', CHR 0x0A, CHR ''y'']\<rparr>)) =
     Inr (''time='' @ [CHR 0x22] @ ''Jan  2 15:04:05'' @ [CHR 0x22] @ '' level=info msg=''
            @ [CHR 0x22, CHR ''x'', CHR 0x5C, CHR ''n'', CHR ''y'', CHR 0x22]
            @ '' e=<q:a b> q=''
            @ [CHR 0x22, CHR ''a'', CHR 0x5C, CHR ''n'', CHR ''b'', CHR 0x22] @ '' ''
            @ [CHR 0x0A], None) \<and>
   \<not> colored_mode sample_Runtime plain_formatter \<and>
   one_line (butlast
     (''time='' @ [CHR 0x22] @ ''Jan  2 15:04:05'' @ [CHR 0x22] @ '' level=info msg=''
            @ [CHR 0x22, CHR ''x'', CHR 0x5C, CHR ''n'', CHR ''y'', CHR 0x22]
            @ '' e=<q:a b> q=''
            @ [CHR 0x22, CHR ''a'', CHR 0x5C, CHR ''n'', CHR ''b'', CHR 0x22] @ '' ''
            @ [CHR 0x0A])) \<and>
   snd (Format sample_Runtime colored_formatter [''n'', ''prefix'']
         (sample_Entry\<lparr>Data := [''n'' \<mapsto> Other 5, ''prefix'' \<mapsto> Str ''main'']\<rparr>)) =
     Inr (ansi_LightBlack sample_Runtime @ ''[Jan  2 15:04:05]'' @ ansi_Reset sample_Runtime
            @ '' '' @ ansi_Blue sample_Runtime @ '' INFO'' @ ansi_Reset sample_Runtime
            @ ansi_LightBlack sample_Runtime @ '' main:'' @ ansi_Reset sample_Runtime
            @ '' [worker] started job '' @ ansi_Blue sample_Runtime @ ''n''
            @ ansi_Reset sample_Runtime @ ''=5'' @ [CHR 0x0A], None) \<and>
   colored_mode sample_Runtime colored_formatter \<and>
   one_line (butlast
     (ansi_LightBlack sample_Runtime @ ''[Jan  2 15:04:05]'' @ ansi_Reset sample_Runtime
            @ '' '' @ ansi_Blue sample_Runtime @ '' INFO'' @ ansi_Reset sample_Runtime
            @ ansi_LightBlack sample_Runtime @ '' main:'' @ ansi_Reset sample_Runtime
            @ '' [worker] started job '' @ ansi_Blue sample_Runtime @ ''n''
            @ ansi_Reset sample_Runtime @ ''=5'' @ [CHR 0x0A]))"
proof -
  let ?e = "sample_Entry\<lparr>Data := [''q'' \<mapsto> Str [CHR ''a'', CHR 0x0A, CHR ''b''],
                                ''e'' \<mapsto> Err ''a b'' (Some sample_Format)],
                         Message := [CHR ''x'', CHR 0x0A, CHR ''y'']\<rparr>"
  let ?out = "''time='' @ [CHR 0x22] @ ''Jan  2 15:04:05'' @ [CHR 0x22] @ '' level=info msg=''
            @ [CHR 0x22, CHR ''x'', CHR 0x5C, CHR ''n'', CHR ''y'', CHR 0x22]
            @ '' e=<q:a b> q=''
            @ [CHR 0x22, CHR ''a'', CHR 0x5C, CHR ''n'', CHR ''b'', CHR 0x22] @ '' ''
            @ [CHR 0x0A]"
  let ?c = "sample_Entry\<lparr>Data := [''n'' \<mapsto> Other 5, ''prefix'' \<mapsto> Str ''main'']\<rparr>"
  let ?col = "ansi_LightBlack sample_Runtime @ ''[Jan  2 15:04:05]'' @ ansi_Reset sample_Runtime
            @ '' '' @ ansi_Blue sample_Runtime @ '' INFO'' @ ansi_Reset sample_Runtime
            @ ansi_LightBlack sample_Runtime @ '' main:'' @ ansi_Reset sample_Runtime
            @ '' [worker] started job '' @ ansi_Blue sample_Runtime @ ''n''
            @ ansi_Reset sample_Runtime @ ''=5'' @ [CHR 0x0A]"
  have k: "field_keys plain_formatter [''q'', ''e''] = [''e'', ''q'']"
    by (simp add: field_keys_def plain_formatter_def)
  have f: "snd (Format sample_Runtime plain_formatter [''q'', ''e''] ?e) = Inr (?out, None)"
    unfolding Format_plain [OF sample_plain] snd_conv k
    by (simp add: plain_line_def key_value_def value_text_def layout_def all_bare_def
        bare_char_def prefixFieldClashes_def index_def Quote_def quoted_printable quoted_newline
        fmt_error_def sample_Format_def
        sample_Runtime_def plain_formatter_def sample_Entry_def time_Stamp_def)
  have p1: "\<forall>k \<in> set [''q'', ''e'']. one_line k"
    by simp
  have p2: "\<forall>k x. Data ?e k = Some (Other x) \<longrightarrow> k \<noteq> ''prefix'' \<longrightarrow>
      one_line (fmt_v sample_Runtime x)"
    by simp
  have p3: "\<forall>k m own. Data ?e k = Some (Err m (Some own)) \<longrightarrow> k \<noteq> ''prefix'' \<longrightarrow>
      all_bare m \<or> one_line (own Verb_q)"
    by (simp add: sample_Format_def)
  from Format_newline [OF f] sample_plain p1 p2 p3
  have l: "one_line (butlast ?out)"
    by blast
  have kc: "field_keys colored_formatter [''n'', ''prefix''] = [''n'']"
    by (simp add: field_keys_def colored_formatter_def plain_formatter_def)
  have d: "displayed sample_Runtime default_Colors
      (?c\<lparr>Data := prefixFieldClashes (Data ?c)\<rparr>) =
      (annotation sample_Runtime default_Colors ''main'', ''[worker] started job'')"
    by (simp add: displayed_def sample_Entry_def prefixFieldClashes_prefix)
  have g: "snd (Format sample_Runtime colored_formatter [''n'', ''prefix''] ?c) =
      Inr (?col, None)"
    unfolding Format_colored [OF sample_colored] snd_conv kc
      printColored_line [OF colored_formatter_Colors] d
    by (simp add: level_label_eq prefix_color_def stamp_def reset_def levelColor_of_def
        annotation_def colored_field_def prefixFieldClashes_def index_def show_int_def
        decimal.simps digit_def
        default_Colors_def colored_formatter_def plain_formatter_def
        sample_Entry_def sample_Runtime_def)
  have q1: "\<forall>colors. Colors colored_formatter = Some colors \<longrightarrow>
      one_line (prefix_color sample_Runtime colors) \<and>
      one_line (levelColor_of sample_Runtime colors (Level ?c))"
    by (simp add: colored_formatter_Colors prefix_color_def levelColor_of_def default_Colors_def
        sample_Entry_def sample_Runtime_def)
  have q2: "one_line (reset sample_Runtime)"
    by (simp add: reset_def sample_Runtime_def)
  have q3: "ShortTimestamp colored_formatter \<or>
      one_line (time_Format sample_Runtime (Time ?c) (layout colored_formatter))"
    by (simp add: sample_Runtime_def)
  have q4: "one_line (Message ?c)"
    by (simp add: sample_Entry_def)
  have q5: "\<forall>k \<in> set [''n'', ''prefix'']. one_line k"
    by simp
  have q6: "\<forall>k v. Data ?c k = Some v \<longrightarrow> k \<noteq> ''prefix'' \<longrightarrow>
      one_line (verb_plus_v sample_Runtime v)"
    by (simp add: show_int_def decimal.simps digit_def sample_Runtime_def)
  have q7: "\<forall>v. Data ?c ''prefix'' = Some v \<longrightarrow> one_line (verb_s sample_Runtime v)"
    by simp
  from Format_newline [OF g] sample_colored q1 q2 q3 q4 q5 q6 q7
  have m: "one_line (butlast ?col)"
    by blast
  from f sample_plain l g sample_colored m show ?thesis
    by (intro conjI)
qed

theorem Format_newline_counterexample:
  "snd (Format sample_Runtime colored_formatter []
         (sample_Entry\<lparr>Message := [CHR ''a'', CHR 0x0A, CHR ''b'']\<rparr>)) =
     Inr (ansi_LightBlack sample_Runtime @ ''[Jan  2 15:04:05]'' @ ansi_Reset sample_Runtime
            @ '' '' @ ansi_Blue sample_Runtime @ '' INFO'' @ ansi_Reset sample_Runtime
            @ '' '' @ [CHR ''a'', CHR 0x0A, CHR ''b'', CHR 0x0A], None) \<and>
   CHR 0x0A \<in> set (butlast
     (ansi_LightBlack sample_Runtime @ ''[Jan  2 15:04:05]'' @ ansi_Reset sample_Runtime
            @ '' '' @ ansi_Blue sample_Runtime @ '' INFO'' @ ansi_Reset sample_Runtime
            @ '' '' @ [CHR ''a'', CHR 0x0A, CHR ''b'', CHR 0x0A])) \<and>
   snd (Format sample_Runtime plain_formatter [[CHR ''a'', CHR 0x0A, CHR ''b''], ''e'']
         (sample_Entry\<lparr>Data := [[CHR ''a'', CHR 0x0A, CHR ''b''] \<mapsto> Str ''x'',
             ''e'' \<mapsto> Err ''a b'' (Some two_line_Format)]\<rparr>)) =
     Inr (''time='' @ [CHR 0x22] @ ''Jan  2 15:04:05'' @ [CHR 0x22] @ '' level=info msg=''
            @ [CHR 0x22] @ ''[worker] started job'' @ [CHR 0x22] @ '' ''
            @ [CHR ''a'', CHR 0x0A, CHR ''b''] @ ''=x e='' @ [CHR ''c'', CHR 0x0A, CHR ''d'']
            @ '' '' @ [CHR 0x0A], None) \<and>
   CHR 0x0A \<in> set (butlast
     (''time='' @ [CHR 0x22] @ ''Jan  2 15:04:05'' @ [CHR 0x22] @ '' level=info msg=''
            @ [CHR 0x22] @ ''[worker] started job'' @ [CHR 0x22] @ '' ''
            @ [CHR ''a'', CHR 0x0A, CHR ''b''] @ ''=x e='' @ [CHR ''c'', CHR 0x0A, CHR ''d'']
            @ '' '' @ [CHR 0x0A]))"
proof (intro conjI)
  have d: "displayed sample_Runtime default_Colors
      (sample_Entry\<lparr>Message := [CHR ''a'', CHR 0x0A, CHR ''b''],
         Data := prefixFieldClashes (Data (sample_Entry\<lparr>Message := [CHR ''a'', CHR 0x0A, CHR ''b'']\<rparr>))\<rparr>) =
      ([], [CHR ''a'', CHR 0x0A, CHR ''b''])"
    by (simp add: displayed_def sample_Entry_def bracket_token_def prefixFieldClashes_apply)
  show "snd (Format sample_Runtime colored_formatter []
         (sample_Entry\<lparr>Message := [CHR ''a'', CHR 0x0A, CHR ''b'']\<rparr>)) =
     Inr (ansi_LightBlack sample_Runtime @ ''[Jan  2 15:04:05]'' @ ansi_Reset sample_Runtime
            @ '' '' @ ansi_Blue sample_Runtime @ '' INFO'' @ ansi_Reset sample_Runtime
            @ '' '' @ [CHR ''a'', CHR 0x0A, CHR ''b'', CHR 0x0A], None)"
    unfolding Format_colored [OF sample_colored] snd_conv
      printColored_line [OF colored_formatter_Colors] d
    by (simp add: level_label_eq prefix_color_def stamp_def reset_def levelColor_of_def
        field_keys_def default_Colors_def colored_formatter_def plain_formatter_def
        sample_Entry_def sample_Runtime_def)
  show "CHR 0x0A \<in> set (butlast
     (ansi_LightBlack sample_Runtime @ ''[Jan  2 15:04:05]'' @ ansi_Reset sample_Runtime
            @ '' '' @ ansi_Blue sample_Runtime @ '' INFO'' @ ansi_Reset sample_Runtime
            @ '' '' @ [CHR ''a'', CHR 0x0A, CHR ''b'', CHR 0x0A]))"
    by (simp add: sample_Runtime_def)
  have k: "field_keys plain_formatter [[CHR ''a'', CHR 0x0A, CHR ''b''], ''e''] =
      [[CHR ''a'', CHR 0x0A, CHR ''b''], ''e'']"
    by (simp add: field_keys_def plain_formatter_def)
  show "snd (Format sample_Runtime plain_formatter [[CHR ''a'', CHR 0x0A, CHR ''b''], ''e'']
         (sample_Entry\<lparr>Data := [[CHR ''a'', CHR 0x0A, CHR ''b''] \<mapsto> Str ''x'',
             ''e'' \<mapsto> Err ''a b'' (Some two_line_Format)]\<rparr>)) =
     Inr (''time='' @ [CHR 0x22] @ ''Jan  2 15:04:05'' @ [CHR 0x22] @ '' level=info msg=''
            @ [CHR 0x22] @ ''[worker] started job'' @ [CHR 0x22] @ '' ''
            @ [CHR ''a'', CHR 0x0A, CHR ''b''] @ ''=x e='' @ [CHR ''c'', CHR 0x0A, CHR ''d'']
            @ '' '' @ [CHR 0x0A], None)"
    unfolding Format_plain [OF sample_plain] snd_conv k
    by (simp add: plain_line_def key_value_def value_text_def layout_def all_bare_def
        bare_char_def prefixFieldClashes_def index_def Quote_def quoted_printable
        fmt_error_def two_line_Format_def
        sample_Runtime_def plain_formatter_def sample_Entry_def time_Stamp_def)
  show "CHR 0x0A \<in> set (butlast
     (''time='' @ [CHR 0x22] @ ''Jan  2 15:04:05'' @ [CHR 0x22] @ '' level=info msg=''
            @ [CHR 0x22] @ ''[worker] started job'' @ [CHR 0x22] @ '' ''
            @ [CHR ''a'', CHR 0x0A, CHR ''b''] @ ''=x e='' @ [CHR ''c'', CHR 0x0A, CHR ''d'']
            @ '' '' @ [CHR 0x0A]))"
    by simp
qed

section \<open>Determinism\<close>

subsection \<open>The elapsed time is read by the short timestamp only\<close>

lemma IsSpace_since [simp]: "IsSpace (rt\<lparr>time_Since_base := d\<rparr>) = IsSpace rt"
  by (rule ext) (simp add: IsSpace_def)

lemma TrimSpace_since [simp]: "TrimSpace (rt\<lparr>time_Since_base := d\<rparr>) s = TrimSpace rt s"
  by (simp add: TrimSpace_def)

lemma appendEscapedRune_since [simp]:
  "appendEscapedRune (rt\<lparr>time_Since_base := d\<rparr>) r = appendEscapedRune rt r"
  by (simp add: appendEscapedRune_def IsPrint_def)

lemma quoted_since [simp]: "quoted (rt\<lparr>time_Since_base := d\<rparr>) s = quoted rt s"
proof (induction rt s rule: quoted.induct)
  case (1 rt)
  show ?case
    by simp
next
  case (2 rt c cs)
  obtain r w where dec:
    "(if 0x80 \<le> byte c then DecodeRuneInString (c # cs) else (byte c, 1)) = (r, w)"
    by (cases "if 0x80 \<le> byte c then DecodeRuneInString (c # cs) else (byte c, 1)") auto
  from 2 [OF dec [symmetric] refl]
  have "quoted (rt\<lparr>time_Since_base := d\<rparr>) (drop w (c # cs)) = quoted rt (drop w (c # cs))" .
  then show ?case
    by (subst (1 2) quoted.simps(2)) (simp only: dec Let_def prod.case appendEscapedRune_since)
qed

lemma fmt_error_since [simp]:
  "fmt_error (rt\<lparr>time_Since_base := d\<rparr>) verb m own = fmt_error rt verb m own"
  by (simp add: fmt_error_def Quote_def split: option.splits verb.splits)

lemma value_text_since [simp]:
  "value_text (rt\<lparr>time_Since_base := d\<rparr>) v = value_text rt v"
  by (cases v) (simp_all add: value_text_def Quote_def)

lemma plain_line_since [simp]:
  "plain_line (rt\<lparr>time_Since_base := d\<rparr>) f entry data keys = plain_line rt f entry data keys"
  by (simp add: plain_line_def key_value_def)

lemma verb_s_since [simp]: "verb_s (rt\<lparr>time_Since_base := d\<rparr>) v = verb_s rt v"
  by (cases v) simp_all

lemma verb_plus_v_since [simp]: "verb_plus_v (rt\<lparr>time_Since_base := d\<rparr>) v = verb_plus_v rt v"
  by (cases v) simp_all

lemma displayed_since [simp]:
  "displayed (rt\<lparr>time_Since_base := d\<rparr>) colors entry = displayed rt colors entry"
  by (simp add: displayed_def annotation_def prefix_color_def reset_def
      split: option.splits prod.splits)

lemma colored_field_since [simp]:
  "colored_field (rt\<lparr>time_Since_base := d\<rparr>) c data = colored_field rt c data"
  by (rule ext) (simp add: colored_field_def reset_def)

lemma colored_mode_since [simp]:
  "colored_mode (rt\<lparr>time_Since_base := d\<rparr>) f = colored_mode rt f"
  by (simp add: colored_mode_def)

lemma levelColor_of_since [simp]:
  "levelColor_of (rt\<lparr>time_Since_base := d\<rparr>) colors level = levelColor_of rt colors level"
  by (cases level) (simp_all add: levelColor_of_def)

lemma printColored_since:
  assumes "ShortTimestamp f \<longrightarrow> miniTS (rt\<lparr>time_Since_base := d\<rparr>) = miniTS rt"
  shows "printColored (rt\<lparr>time_Since_base := d\<rparr>) f b entry keys tf =
    printColored rt f b entry keys tf"
proof (cases "Colors f")
  case None
  then show ?thesis
    by (simp add: printColored_def)
next
  case (Some colors)
  from assms have "stamp (rt\<lparr>time_Since_base := d\<rparr>) f entry tf = stamp rt f entry tf"
    by (simp add: stamp_def)
  then show ?thesis
    unfolding printColored_line [OF Some]
    by (simp add: prefix_color_def reset_def)
qed

lemma field_keys_order:
  assumes "distinct order1" "distinct order2" "set order1 = set order2"
    and "DisableSorting f \<longrightarrow> order1 = order2"
  shows "field_keys f order1 = field_keys f order2"
proof (cases "DisableSorting f")
  case True
  with assms(4) show ?thesis
    by simp
next
  case False
  have "sort (filter (\<lambda>k. k \<noteq> ''prefix'') order1) = sort (filter (\<lambda>k. k \<noteq> ''prefix'') order2)"
    using assms(1-3) by (intro sorted_distinct_set_unique) simp_all
  with False show ?thesis
    by (simp add: field_keys_def)
qed


lemma miniTS_sample:
  "miniTS sample_Runtime = 1"
  "miniTS (sample_Runtime\<lparr>time_Since_base := 1900000000\<rparr>) = 1"
  "miniTS (sample_Runtime\<lparr>time_Since_base := 2500000000\<rparr>) = 2"
  by (simp_all add: miniTS_def time_Second_def sample_Runtime_def)

lemma verb_04d_small: "verb_04d 1 = ''0001''" "verb_04d 2 = ''0002''"
  by code_simp+


text \<open>
  C8. Two calls of \<^verbatim>\<open>Format\<close> on the same entry and configuration give the same
  bytes and leave the same map, provided that the keys come in the same order both
  times or sorting is enabled, and that, in colored mode with the short timestamp, the
  whole seconds elapsed since the start are the same at both calls.
\<close>

theorem Format_deterministic:
  assumes "distinct order1" and "distinct order2" and "set order1 = set order2"
    and "DisableSorting f \<longrightarrow> order1 = order2"
    and "colored_mode rt f \<and> ShortTimestamp f \<longrightarrow> miniTS (rt\<lparr>time_Since_base := d\<rparr>) = miniTS rt"
  shows "Format (rt\<lparr>time_Since_base := d\<rparr>) f order2 entry = Format rt f order1 entry"
proof (cases "colored_mode rt f")
  case True
  then have c: "colored_mode (rt\<lparr>time_Since_base := d\<rparr>) f"
    by simp
  from True assms(5) have "ShortTimestamp f \<longrightarrow> miniTS (rt\<lparr>time_Since_base := d\<rparr>) = miniTS rt"
    by simp
  then show ?thesis
    unfolding Format_colored [OF True] Format_colored [OF c]
      field_keys_order [OF assms(1-4)]
    by (simp only: printColored_since)
next
  case False
  then have c: "\<not> colored_mode (rt\<lparr>time_Since_base := d\<rparr>) f"
    by simp
  show ?thesis
    unfolding Format_plain [OF False] Format_plain [OF c] field_keys_order [OF assms(1-4)]
    by simp
qed

theorem Format_deterministic_witness:
  "distinct [''b'', ''a''] \<and> distinct [''a'', ''b''] \<and> set [''b'', ''a''] = set [''a'', ''b''] \<and>
   \<not> DisableSorting (colored_formatter\<lparr>ShortTimestamp := True\<rparr>) \<and>
   miniTS (sample_Runtime\<lparr>time_Since_base := 1900000000\<rparr>) = miniTS sample_Runtime \<and>
   Format (sample_Runtime\<lparr>time_Since_base := 1900000000\<rparr>)
       (colored_formatter\<lparr>ShortTimestamp := True\<rparr>) [''a'', ''b'']
       (sample_Entry\<lparr>Data := [''a'' \<mapsto> Str ''1'', ''b'' \<mapsto> Other 2]\<rparr>) =
     Format sample_Runtime (colored_formatter\<lparr>ShortTimestamp := True\<rparr>) [''b'', ''a'']
       (sample_Entry\<lparr>Data := [''a'' \<mapsto> Str ''1'', ''b'' \<mapsto> Other 2]\<rparr>)"
proof -
  have s: "\<not> DisableSorting (colored_formatter\<lparr>ShortTimestamp := True\<rparr>)"
    by (simp add: colored_formatter_def plain_formatter_def)
  have m: "miniTS (sample_Runtime\<lparr>time_Since_base := 1900000000\<rparr>) = miniTS sample_Runtime"
    by (simp add: miniTS_sample)
  have "distinct [''b'', ''a'']" "distinct [''a'', ''b'']" "set [''b'', ''a''] = set [''a'', ''b'']"
    by auto
  from Format_deterministic [OF this, of "colored_formatter\<lparr>ShortTimestamp := True\<rparr>"
      sample_Runtime 1900000000] s m
  show ?thesis
    by auto
qed

theorem Format_deterministic_counterexample:
  "snd (Format sample_Runtime (colored_formatter\<lparr>ShortTimestamp := True\<rparr>) [] sample_Entry) =
     Inr (ansi_LightBlack sample_Runtime @ ''[0001]'' @ ansi_Reset sample_Runtime
            @ '' '' @ ansi_Blue sample_Runtime @ '' INFO'' @ ansi_Reset sample_Runtime
            @ ansi_LightBlack sample_Runtime @ '' worker:'' @ ansi_Reset sample_Runtime
            @ '' started job'' @ [CHR 0x0A], None) \<and>
   snd (Format (sample_Runtime\<lparr>time_Since_base := 2500000000\<rparr>)
         (colored_formatter\<lparr>ShortTimestamp := True\<rparr>) [] sample_Entry) =
     Inr (ansi_LightBlack sample_Runtime @ ''[0002]'' @ ansi_Reset sample_Runtime
            @ '' '' @ ansi_Blue sample_Runtime @ '' INFO'' @ ansi_Reset sample_Runtime
            @ ansi_LightBlack sample_Runtime @ '' worker:'' @ ansi_Reset sample_Runtime
            @ '' started job'' @ [CHR 0x0A], None) \<and>
   snd (Format sample_Runtime (plain_formatter\<lparr>DisableSorting := True\<rparr>) [''a'', ''b'']
         (sample_Entry\<lparr>Data := [''a'' \<mapsto> Str ''1'', ''b'' \<mapsto> Other 2], Message := []\<rparr>)) =
     Inr (''time='' @ [CHR 0x22] @ ''Jan  2 15:04:05'' @ [CHR 0x22] @ '' level=info a=1 b=2 ''
            @ [CHR 0x0A], None) \<and>
   snd (Format sample_Runtime (plain_formatter\<lparr>DisableSorting := True\<rparr>) [''b'', ''a'']
         (sample_Entry\<lparr>Data := [''a'' \<mapsto> Str ''1'', ''b'' \<mapsto> Other 2], Message := []\<rparr>)) =
     Inr (''time='' @ [CHR 0x22] @ ''Jan  2 15:04:05'' @ [CHR 0x22] @ '' level=info b=2 a=1 ''
            @ [CHR 0x0A], None) \<and>
   snd (Format sample_Runtime (colored_formatter\<lparr>ShortTimestamp := True\<rparr>) [] sample_Entry) \<noteq>
     snd (Format (sample_Runtime\<lparr>time_Since_base := 2500000000\<rparr>)
           (colored_formatter\<lparr>ShortTimestamp := True\<rparr>) [] sample_Entry) \<and>
   snd (Format sample_Runtime (plain_formatter\<lparr>DisableSorting := True\<rparr>) [''a'', ''b'']
         (sample_Entry\<lparr>Data := [''a'' \<mapsto> Str ''1'', ''b'' \<mapsto> Other 2], Message := []\<rparr>)) \<noteq>
     snd (Format sample_Runtime (plain_formatter\<lparr>DisableSorting := True\<rparr>) [''b'', ''a'']
           (sample_Entry\<lparr>Data := [''a'' \<mapsto> Str ''1'', ''b'' \<mapsto> Other 2], Message := []\<rparr>))"
proof (intro conjI)
  have c: "colored_mode rt (colored_formatter\<lparr>ShortTimestamp := True\<rparr>)"
    for rt :: "(unit, int) Runtime"
    by (simp add: colored_mode_def colored_formatter_def plain_formatter_def)
  have C: "Colors (colored_formatter\<lparr>ShortTimestamp := True\<rparr>) = Some default_Colors"
    by (simp add: colored_formatter_Colors)
  have d: "displayed rt default_Colors
      (sample_Entry\<lparr>Data := prefixFieldClashes (Data sample_Entry)\<rparr>) =
      (annotation rt default_Colors ''worker'', ''started job'')"
    for rt :: "(unit, int) Runtime"
    by (simp add: displayed_def sample_Entry_def bracket_token_worker TrimSpace_started_job
        prefixFieldClashes_apply)
  show s1: "snd (Format sample_Runtime (colored_formatter\<lparr>ShortTimestamp := True\<rparr>) []
         sample_Entry) =
     Inr (ansi_LightBlack sample_Runtime @ ''[0001]'' @ ansi_Reset sample_Runtime
            @ '' '' @ ansi_Blue sample_Runtime @ '' INFO'' @ ansi_Reset sample_Runtime
            @ ansi_LightBlack sample_Runtime @ '' worker:'' @ ansi_Reset sample_Runtime
            @ '' started job'' @ [CHR 0x0A], None)"
    unfolding Format_colored [OF c] snd_conv printColored_line [OF C] d
    by (simp add: level_label_eq annotation_def prefix_color_def stamp_def reset_def
        levelColor_of_def field_keys_def miniTS_sample verb_04d_small default_Colors_def
        sample_Entry_def)
  show s2: "snd (Format (sample_Runtime\<lparr>time_Since_base := 2500000000\<rparr>)
         (colored_formatter\<lparr>ShortTimestamp := True\<rparr>) [] sample_Entry) =
     Inr (ansi_LightBlack sample_Runtime @ ''[0002]'' @ ansi_Reset sample_Runtime
            @ '' '' @ ansi_Blue sample_Runtime @ '' INFO'' @ ansi_Reset sample_Runtime
            @ ansi_LightBlack sample_Runtime @ '' worker:'' @ ansi_Reset sample_Runtime
            @ '' started job'' @ [CHR 0x0A], None)"
    unfolding Format_colored [OF c] snd_conv printColored_line [OF C] d
    by (simp add: level_label_eq annotation_def prefix_color_def stamp_def reset_def
        levelColor_of_def field_keys_def miniTS_sample verb_04d_small default_Colors_def
        sample_Entry_def)
  have p: "\<not> colored_mode sample_Runtime (plain_formatter\<lparr>DisableSorting := True\<rparr>)"
    by (simp add: colored_mode_def sample_Runtime_def plain_formatter_def)
  show p1: "snd (Format sample_Runtime (plain_formatter\<lparr>DisableSorting := True\<rparr>) [''a'', ''b'']
         (sample_Entry\<lparr>Data := [''a'' \<mapsto> Str ''1'', ''b'' \<mapsto> Other 2], Message := []\<rparr>)) =
     Inr (''time='' @ [CHR 0x22] @ ''Jan  2 15:04:05'' @ [CHR 0x22] @ '' level=info a=1 b=2 ''
            @ [CHR 0x0A], None)"
    unfolding Format_plain [OF p] snd_conv
    by (simp add: plain_line_def key_value_def value_text_def layout_def all_bare_def
        bare_char_def prefixFieldClashes_apply index_def Quote_def quoted_printable decimal.simps
        digit_def field_keys_def sample_Runtime_def plain_formatter_def sample_Entry_def
        show_int_def time_Stamp_def)
  show p2: "snd (Format sample_Runtime (plain_formatter\<lparr>DisableSorting := True\<rparr>) [''b'', ''a'']
         (sample_Entry\<lparr>Data := [''a'' \<mapsto> Str ''1'', ''b'' \<mapsto> Other 2], Message := []\<rparr>)) =
     Inr (''time='' @ [CHR 0x22] @ ''Jan  2 15:04:05'' @ [CHR 0x22] @ '' level=info b=2 a=1 ''
            @ [CHR 0x0A], None)"
    unfolding Format_plain [OF p] snd_conv
    by (simp add: plain_line_def key_value_def value_text_def layout_def all_bare_def
        bare_char_def prefixFieldClashes_apply index_def Quote_def quoted_printable decimal.simps
        digit_def field_keys_def sample_Runtime_def plain_formatter_def sample_Entry_def
        show_int_def time_Stamp_def)
  show "snd (Format sample_Runtime (colored_formatter\<lparr>ShortTimestamp := True\<rparr>) []
      sample_Entry) \<noteq>
     snd (Format (sample_Runtime\<lparr>time_Since_base := 2500000000\<rparr>)
           (colored_formatter\<lparr>ShortTimestamp := True\<rparr>) [] sample_Entry)"
    unfolding s1 s2 by simp
  show "snd (Format sample_Runtime (plain_formatter\<lparr>DisableSorting := True\<rparr>) [''a'', ''b'']
         (sample_Entry\<lparr>Data := [''a'' \<mapsto> Str ''1'', ''b'' \<mapsto> Other 2], Message := []\<rparr>)) \<noteq>
     snd (Format sample_Runtime (plain_formatter\<lparr>DisableSorting := True\<rparr>) [''b'', ''a'']
           (sample_Entry\<lparr>Data := [''a'' \<mapsto> Str ''1'', ''b'' \<mapsto> Other 2], Message := []\<rparr>))"
    unfolding p1 p2 by simp
qed

section \<open>The nil palette and the clashing keys\<close>

text \<open>
  C2. \<^verbatim>\<open>Format\<close> is to return bytes and a nil error for every configuration. With
  colors forced and the palette \<^verbatim>\<open>Colors\<close> left nil, \<^verbatim>\<open>printColored\<close> dereferences
  the nil pointer and the call panics.
\<close>

theorem Format_nil_Colors_panics:
  "snd (Format rt (f\<lparr>ForceColors := True, DisableColors := False, Colors := None\<rparr>) order entry) =
     Inl NilPointerDereference \<and>
   snd (Format sample_Runtime (plain_formatter\<lparr>ForceColors := True\<rparr>) [] sample_Entry) =
     Inl NilPointerDereference"
proof
  have "colored_mode rt (f\<lparr>ForceColors := True, DisableColors := False, Colors := None\<rparr>)"
    by (simp add: colored_mode_def)
  from Format_colored [OF this]
  show "snd (Format rt (f\<lparr>ForceColors := True, DisableColors := False, Colors := None\<rparr>) order
      entry) = Inl NilPointerDereference"
    by (simp add: printColored_def)
next
  have "colored_mode sample_Runtime (plain_formatter\<lparr>ForceColors := True\<rparr>)"
    by (simp add: colored_mode_def plain_formatter_def)
  from Format_colored [OF this]
  show "snd (Format sample_Runtime (plain_formatter\<lparr>ForceColors := True\<rparr>) [] sample_Entry) =
     Inl NilPointerDereference"
    by (simp add: printColored_def plain_formatter_def)
qed


text \<open>
  C1. A field named \<^verbatim>\<open>time\<close> is to be rendered as \<^verbatim>\<open>fields.time\<close>. The keys to
  render are collected before \<^verbatim>\<open>prefixFieldClashes\<close> adds \<^verbatim>\<open>fields.time\<close> to the
  map, so the line has the field under the key \<^verbatim>\<open>time\<close>, after the pair of the
  timestamp, and no pair \<^verbatim>\<open>fields.time\<close>.
\<close>

theorem Format_clash_not_renamed:
  "Format sample_Runtime plain_formatter [''time'']
      (sample_Entry\<lparr>Data := [''time'' \<mapsto> Str ''X''], Message := ''hello''\<rparr>) =
    (sample_Entry\<lparr>Data := [''time'' \<mapsto> Str ''X'', ''fields.time'' \<mapsto> Str ''X''],
                    Message := ''hello''\<rparr>,
     Inr (''time='' @ [CHR 0x22] @ ''Jan  2 15:04:05'' @ [CHR 0x22]
            @ '' level=info msg=hello time=X '' @ [CHR 0x0A], None))"
proof -
  have d: "prefixFieldClashes [''time'' \<mapsto> Str ''X''] =
      [''time'' \<mapsto> Str ''X'', ''fields.time'' \<mapsto> Str ''X'']"
    by (rule ext) (simp add: prefixFieldClashes_apply)
  show ?thesis
    unfolding Format_plain [OF sample_plain]
    by (simp add: d sample_Entry_def)
      (simp add: plain_line_def key_value_def value_text_def layout_def all_bare_def
        bare_char_def index_def Quote_def quoted_printable field_keys_def sample_Runtime_def
        plain_formatter_def time_Stamp_def)
qed

end
